theory Spec2Isabelle
  imports Main "HOL-Library.Word"
begin

unbundle bit_operations_syntax

section \<open>UTF-16 to UTF-8 transcoding (hermes/Support/UTF8.h)\<close>

text \<open>
  The transcoders are declared in \<^verbatim>\<open>hermes/Support/UTF8.h\<close> and exercised by
  \<^verbatim>\<open>unittests/Support/UnicodeTest.cpp\<close>. The unit test is the part of them that
  is available: its expectations are embedded below as data, and the transcoders are
  modelled so that every expectation of the test holds.
\<close>

type_synonym byte = "8 word"
type_synonym char16 = "16 word"
type_synonym char32 = "32 word"

definition isHighSurrogate :: "char16 \<Rightarrow> bool" where
  "isHighSurrogate c = (0xD800 \<le> c \<and> c \<le> 0xDBFF)"

definition isLowSurrogate :: "char16 \<Rightarrow> bool" where
  "isLowSurrogate c = (0xDC00 \<le> c \<and> c \<le> 0xDFFF)"

definition isSurrogate :: "char16 \<Rightarrow> bool" where
  "isSurrogate c = (0xD800 \<le> c \<and> c \<le> 0xDFFF)"

text \<open>The scalar value of a lead and trail pair:
  \<open>0x10000 + (lead - 0xD800) * 0x400 + (trail - 0xDC00)\<close>.\<close>

definition decodeSurrogatePair :: "char16 \<Rightarrow> char16 \<Rightarrow> char32" where
  "decodeSurrogatePair hi lo =
     0x10000 + (ucast hi - 0xD800) * 0x400 + (ucast lo - 0xDC00)"

text \<open>Modelled from the spec: \<^verbatim>\<open>encodeUTF8\<close> (hermes/Support/UTF8.h is missing).
  One byte for \<open>[0, 0x7F]\<close>, two for \<open>[0x80, 0x7FF]\<close>, three for
  \<open>[0x800, 0xFFFF]\<close>, four above, with the standard lead and continuation bytes.\<close>

definition encodeUTF8 :: "char32 \<Rightarrow> byte list" where
  "encodeUTF8 cp =
     (if cp \<le> 0x7F then [ucast cp]
      else if cp \<le> 0x7FF then
        [0xC0 OR ucast (drop_bit 6 cp), 0x80 OR ucast (cp AND 0x3F)]
      else if cp \<le> 0xFFFF then
        [0xE0 OR ucast (drop_bit 12 cp),
         0x80 OR ucast (drop_bit 6 cp AND 0x3F),
         0x80 OR ucast (cp AND 0x3F)]
      else
        [0xF0 OR ucast (drop_bit 18 cp),
         0x80 OR ucast (drop_bit 12 cp AND 0x3F),
         0x80 OR ucast (drop_bit 6 cp AND 0x3F),
         0x80 OR ucast (cp AND 0x3F)])"

text \<open>The three bytes of U+FFFD, the replacement character.\<close>

definition UNICODE_REPLACEMENT_CHARACTER :: char32 where
  "UNICODE_REPLACEMENT_CHARACTER = 0xFFFD"

text \<open>Modelled from the spec: \<^verbatim>\<open>convertUTF16ToUTF8WithSingleSurrogates\<close>
  (hermes/Support/UTF8.h is missing), the exact mode. A single left-to-right pass that
  appends to the accumulator \<open>out\<close>. The unit encodings are those of the spec; what a
  surrogate unit becomes is fixed by the unit test
  (\<^verbatim>\<open>UnicodeTest.cpp\<close>, lines 37 to 48): every surrogate unit, paired or not, is
  encoded on its own as the three bytes of its own value.\<close>

fun convertUTF16ToUTF8WithSingleSurrogates :: "byte list \<Rightarrow> char16 list \<Rightarrow> byte list" where
  "convertUTF16ToUTF8WithSingleSurrogates out [] = out"
| "convertUTF16ToUTF8WithSingleSurrogates out (c # cs) =
     convertUTF16ToUTF8WithSingleSurrogates (out @ encodeUTF8 (ucast c)) cs"

text \<open>Modelled from the spec: \<^verbatim>\<open>convertUTF16ToUTF8WithReplacements\<close>
  (hermes/Support/UTF8.h is missing), the replacement mode. A single left-to-right pass
  with one unit of lookahead: a lead followed by a trail is combined and both units are
  consumed; any other surrogate unit is consumed alone and replaced by U+FFFD.\<close>

fun convertUTF16ToUTF8WithReplacements :: "byte list \<Rightarrow> char16 list \<Rightarrow> byte list" where
  "convertUTF16ToUTF8WithReplacements out [] = out"
| "convertUTF16ToUTF8WithReplacements out (c # cs) =
     (if c \<le> 0x7F then convertUTF16ToUTF8WithReplacements (out @ [ucast c]) cs
      else if isLowSurrogate c then
        convertUTF16ToUTF8WithReplacements
          (out @ encodeUTF8 UNICODE_REPLACEMENT_CHARACTER) cs
      else if isHighSurrogate c then
        (case cs of
           [] \<Rightarrow> out @ encodeUTF8 UNICODE_REPLACEMENT_CHARACTER
         | d # ds \<Rightarrow>
             if isLowSurrogate d then
               convertUTF16ToUTF8WithReplacements
                 (out @ encodeUTF8 (decodeSurrogatePair c d)) ds
             else
               convertUTF16ToUTF8WithReplacements
                 (out @ encodeUTF8 UNICODE_REPLACEMENT_CHARACTER) cs)
      else convertUTF16ToUTF8WithReplacements (out @ encodeUTF8 (ucast c)) cs)"

text \<open>The expectations of \<^verbatim>\<open>TEST(StringTest, UTF16ToUTF8StringWithSingleSurrogates)\<close>,
  in the order of the source: the input of \<^verbatim>\<open>convert\<close> and the expected bytes.\<close>

definition UTF16ToUTF8StringWithSingleSurrogates :: "(char16 list \<times> byte list) list" where
  "UTF16ToUTF8StringWithSingleSurrogates =
     [([], []),
      ([0x61], [0x61]),
      ([0x61, 0x62, 0x63, 0, 0x64], [0x61, 0x62, 0x63, 0, 0x64]),
      ([0x61, 0x62, 0x63, 0, 0x64], [0x61, 0x62, 0x63, 0, 0x64]),
      ([0x65, 0x0301], [0x65, 0xCC, 0x81]),
      ([0x2603], [0xE2, 0x98, 0x83]),
      ([0xD83D, 0xDE39], [0xED, 0xA0, 0xBD, 0xED, 0xB8, 0xB9]),
      ([0xD83D], [0xED, 0xA0, 0xBD]),
      ([0x61, 0xD83D, 0x62], [0x61, 0xED, 0xA0, 0xBD, 0x62]),
      ([0x61, 0xDE39, 0x62], [0x61, 0xED, 0xB8, 0xB9, 0x62]),
      ([0x61, 0xD83D], [0x61, 0xED, 0xA0, 0xBD]),
      ([0x61, 0xDE39], [0x61, 0xED, 0xB8, 0xB9])]"

text \<open>The expectations of \<^verbatim>\<open>TEST(StringTest, UTF16ToUTF8StringWithReplacements)\<close>.\<close>

definition UTF16ToUTF8StringWithReplacements :: "(char16 list \<times> byte list) list" where
  "UTF16ToUTF8StringWithReplacements =
     [([], []),
      ([0x61], [0x61]),
      ([0x61, 0x62, 0x63, 0, 0x64], [0x61, 0x62, 0x63, 0, 0x64]),
      ([0x61, 0x62, 0x63, 0, 0x64], [0x61, 0x62, 0x63, 0, 0x64]),
      ([0x65, 0x0301], [0x65, 0xCC, 0x81]),
      ([0x2603], [0xE2, 0x98, 0x83]),
      ([0xD83D, 0xDE39], [0xF0, 0x9F, 0x98, 0xB9]),
      ([0xD83D], [0xEF, 0xBF, 0xBD]),
      ([0x61, 0xD83D, 0x62], [0x61, 0xEF, 0xBF, 0xBD, 0x62]),
      ([0x61, 0xDE39, 0x62], [0x61, 0xEF, 0xBF, 0xBD, 0x62]),
      ([0x61, 0xD83D], [0x61, 0xEF, 0xBF, 0xBD]),
      ([0x61, 0xDE39], [0x61, 0xEF, 0xBF, 0xBD])]"

text \<open>What \<^verbatim>\<open>convert\<close> of the tests does: a fresh accumulator, one call.\<close>

definition convertExact :: "char16 list \<Rightarrow> byte list" where
  "convertExact cs = convertUTF16ToUTF8WithSingleSurrogates [] cs"

definition convertReplacing :: "char16 list \<Rightarrow> byte list" where
  "convertReplacing cs = convertUTF16ToUTF8WithReplacements [] cs"

subsection \<open>Lone surrogates, by position\<close>

text \<open>Position \<open>i\<close> of \<open>cs\<close> holds a lead that is immediately followed by a trail.\<close>

definition pairedLeadAt :: "char16 list \<Rightarrow> nat \<Rightarrow> bool" where
  "pairedLeadAt cs i =
     (i + 1 < length cs \<and> isHighSurrogate (cs ! i) \<and> isLowSurrogate (cs ! (i + 1)))"

text \<open>Position \<open>i\<close> holds the trail of such a pair.\<close>

definition pairedTrailAt :: "char16 list \<Rightarrow> nat \<Rightarrow> bool" where
  "pairedTrailAt cs i = (0 < i \<and> pairedLeadAt cs (i - 1))"

text \<open>A lone surrogate: a surrogate unit that is neither the lead nor the trail of an
  adjacent lead and trail pair.\<close>

definition loneSurrogateAt :: "char16 list \<Rightarrow> nat \<Rightarrow> bool" where
  "loneSurrogateAt cs i =
     (i < length cs \<and> isSurrogate (cs ! i) \<and> \<not> pairedLeadAt cs i \<and> \<not> pairedTrailAt cs i)"

text \<open>The bytes the replacement mode owes for position \<open>i\<close>: U+FFFD for a lone
  surrogate, the four bytes of the pair at its lead, nothing more at its trail, and the
  unit's own encoding otherwise.\<close>

definition replacementBytesAt :: "char16 list \<Rightarrow> nat \<Rightarrow> byte list" where
  "replacementBytesAt cs i =
     (if loneSurrogateAt cs i then [0xEF, 0xBF, 0xBD]
      else if pairedLeadAt cs i then encodeUTF8 (decodeSurrogatePair (cs ! i) (cs ! (i + 1)))
      else if pairedTrailAt cs i then []
      else encodeUTF8 (ucast (cs ! i)))"


text \<open>A well-formed sequence has no lone surrogate: every surrogate unit is part of an
  adjacent lead and trail pair.\<close>

definition wellFormedUTF16 :: "char16 list \<Rightarrow> bool" where
  "wellFormedUTF16 cs = list_all (\<lambda>i. \<not> loneSurrogateAt cs i) [0 ..< length cs]"

section \<open>The ASCII classifier (hermes/Support/UTF8.h)\<close>

text \<open>A half-open byte range is given by the bytes it holds, in order, and by the
  address of its first byte, which decides how the range lies against chunk boundaries.\<close>

text \<open>The naive scan: one byte at a time, stopping at the first byte above \<open>0x7F\<close>.\<close>

fun isAllASCII_fallback :: "byte list \<Rightarrow> bool" where
  "isAllASCII_fallback [] = True"
| "isAllASCII_fallback (b # bs) = (if b > 0x7F then False else isAllASCII_fallback bs)"

text \<open>The loop \<^verbatim>\<open>mask |= *cursor++\<close> over a run of bytes.\<close>

fun orBytes :: "byte \<Rightarrow> byte list \<Rightarrow> byte" where
  "orBytes acc [] = acc"
| "orBytes acc (b # bs) = orBytes (acc OR b) bs"

text \<open>A chunk read as one unsigned integer (least significant byte first), and the
  constant with the high bit of each of its \<open>n\<close> bytes set (\<open>0x80808080\<close> for \<open>n = 4\<close>).\<close>

fun loadChunk :: "byte list \<Rightarrow> nat" where
  "loadChunk [] = 0"
| "loadChunk (b # bs) = unat b + 256 * loadChunk bs"

fun highBits :: "nat \<Rightarrow> nat" where
  "highBits 0 = 0"
| "highBits (Suc n) = 0x80 + 256 * highBits n"

text \<open>The fast path: while at least \<open>w\<close> bytes are left, test a whole chunk at once.
  \<open>None\<close> is the early \<^verbatim>\<open>return false\<close>; otherwise the bytes left over.\<close>

function scanChunks :: "nat \<Rightarrow> byte list \<Rightarrow> byte list option" where
  "scanChunks w bytes =
     (if 0 < w \<and> w \<le> length bytes then
        if loadChunk (take w bytes) AND highBits w \<noteq> 0 then None
        else scanChunks w (drop w bytes)
      else Some bytes)"
  by pat_completeness auto
termination
  by (relation "measure (\<lambda>(w, bytes). length bytes)") auto

declare scanChunks.simps [simp del]

text \<open>Modelled from the spec: \<^verbatim>\<open>isAllASCII\<close> (hermes/Support/UTF8.h is missing). The
  spec fixes the result and allows an internal wide-chunk fast path; the model has one,
  for any chunk width \<open>w\<close> (no fast path when \<open>w = 0\<close>): bytes are taken one at a time
  until the cursor address is a multiple of \<open>w\<close>, then \<open>w\<close> at a time, then one at a
  time to the end of the range. \<open>addr\<close> is the address of the first byte.\<close>

definition isAllASCII :: "nat \<Rightarrow> nat \<Rightarrow> byte list \<Rightarrow> bool" where
  "isAllASCII w addr bytes =
     (if 0 < w \<and> w \<le> length bytes then
        let n = (w - addr mod w) mod w in
        if orBytes 0 (take n bytes) AND 0x80 \<noteq> 0 then False
        else
          (case scanChunks w (drop n bytes) of
             None \<Rightarrow> False
           | Some rest \<Rightarrow> orBytes 0 rest AND 0x80 = 0)
      else orBytes 0 bytes AND 0x80 = 0)"

text \<open>The sub-range \<^verbatim>\<open>&arr[start]\<close> to \<^verbatim>\<open>&arr[end]\<close> of an array.\<close>

definition subrange :: "byte list \<Rightarrow> nat \<Rightarrow> nat \<Rightarrow> byte list" where
  "subrange arr start end' = take (end' - start) (drop start arr)"

text \<open>The arrays of \<^verbatim>\<open>TEST(StringTest, IsAllASCIITest)\<close>.\<close>

definition asciiArr :: "byte list" where
  "asciiArr = [1, 3, 14, 54, 19, 124, 13, 43, 127, 19, 0]"

definition partialAsciiArr :: "byte list" where
  "partialAsciiArr = [1, 3, 14, 54, 219, 124, 13, 43, 127, 19]"

definition noAsciiArr :: "byte list" where
  "noAsciiArr = [129, 153, 175, 201, 219, 231, 214, 255, 255, 130]"

section \<open>DataView (lib/VM/JSLib/DataView.cpp)\<close>

subsection \<open>Buffers, views and values\<close>

type_synonym addr = nat

text \<open>Modelled from the spec: \<^verbatim>\<open>JSArrayBuffer\<close> (hermes/VM/JSArrayBuffer.h is missing).
  A buffer owns its bytes and has an attached flag; \<^verbatim>\<open>size()\<close> is the length of the
  data block.\<close>

record JSArrayBuffer =
  dataBlock :: "byte list"
  attached :: bool

definition bufferSize :: "JSArrayBuffer \<Rightarrow> nat" where
  "bufferSize b = length (dataBlock b)"

text \<open>Buffers are shared by reference: a view holds the address of its buffer, and the
  runtime state is the store of the buffers. Whatever re-entrant code does to a buffer
  is seen through every view of it.\<close>

type_synonym Runtime = "addr \<Rightarrow> JSArrayBuffer"

text \<open>Modelled from the spec: \<^verbatim>\<open>JSArrayBuffer::detach\<close> (hermes/VM/JSArrayBuffer.h is
  missing). Detaching gives up the storage, for good: no byte is left and the flag is
  cleared.\<close>

definition detach :: "addr \<Rightarrow> Runtime \<Rightarrow> Runtime" where
  "detach a runtime = runtime (a := \<lparr>dataBlock = [], attached = False\<rparr>)"

text \<open>The fields \<^verbatim>\<open>setBuffer\<close> stores on a view; nothing in DataView.cpp changes them
  afterwards, so a view is a value.\<close>

record JSDataView =
  dv_buffer :: addr
  dv_byteOffset :: nat
  dv_byteLength :: nat

text \<open>The values DataView.cpp tells apart. \<open>'d\<close> stands for the doubles, whose
  arithmetic is outside this development.\<close>

datatype 'd HermesValue =
    UndefinedValue
  | BoolValue bool
  | NumberValue 'd
  | ArrayBufferObject addr
  | DataViewObject JSDataView
  | OtherObject nat

datatype Exception = TypeError string | RangeError string | Thrown string

record 'd NativeArgs =
  thisArg :: "'d HermesValue"
  argv :: "'d HermesValue list"
  isConstructorCall :: bool

text \<open>\<^verbatim>\<open>getArg(i)\<close> is undefined past the arguments given.\<close>

definition getArg :: "'d NativeArgs \<Rightarrow> nat \<Rightarrow> 'd HermesValue" where
  "getArg args i = (if i < length (argv args) then argv args ! i else UndefinedValue)"

definition dyncastThis :: "'d NativeArgs \<Rightarrow> JSDataView option" where
  "dyncastThis args = (case thisArg args of DataViewObject self \<Rightarrow> Some self | _ \<Rightarrow> None)"

definition dyncastArg :: "'d NativeArgs \<Rightarrow> nat \<Rightarrow> addr option" where
  "dyncastArg args i = (case getArg args i of ArrayBufferObject a \<Rightarrow> Some a | _ \<Rightarrow> None)"

definition isUndefined :: "'d HermesValue \<Rightarrow> bool" where
  "isUndefined v = (case v of UndefinedValue \<Rightarrow> True | _ \<Rightarrow> False)"

definition raiseTypeError :: "string \<Rightarrow> Exception + 'a" where
  "raiseTypeError msg = Inl (TypeError msg)"

definition raiseRangeError :: "string \<Rightarrow> Exception + 'a" where
  "raiseRangeError msg = Inl (RangeError msg)"

subsection \<open>The collaborators DataView.cpp calls\<close>

text \<open>The argument coercions and the numeric conversions are declared in headers that
  are missing (hermes/VM/Operations.h, hermes/VM/JSTypedArray.h); they are parameters.
  \<^item> \<open>toIndex\<close> and \<open>toNumber_RJS\<close> may run arbitrary re-entrant code: they take the
    runtime state and return the state they leave, with an exception or a result.
    \<open>toIndex\<close> returns the index as the unsigned integer the callers read from it.
  \<^item> \<open>toBoolean\<close> has no effect on the state.
  \<^item> \<open>toDestType T\<close> converts a double to the bit pattern of a value of type \<open>T\<close>;
    \<open>SafeNumericEncoder T\<close> turns such a bit pattern into a number value;
    \<open>encodeNumberValue\<close> turns an unsigned integer into a number value.\<close>

datatype ElemType = Int8 | Uint8 | Int16 | Uint16 | Int32 | Uint32 | Float32 | Float64

text \<open>Modelled from the spec: the element types of hermes/VM/TypedArrays.def (missing),
  without the clamped one (\<^verbatim>\<open>TYPED_ARRAY_NO_CLAMP\<close>), and their sizes.\<close>

fun sizeofT :: "ElemType \<Rightarrow> nat" where
  "sizeofT Int8 = 1"
| "sizeofT Uint8 = 1"
| "sizeofT Int16 = 2"
| "sizeofT Uint16 = 2"
| "sizeofT Int32 = 4"
| "sizeofT Uint32 = 4"
| "sizeofT Float32 = 4"
| "sizeofT Float64 = 8"

record 'd Env =
  toIndex :: "Runtime \<Rightarrow> 'd HermesValue \<Rightarrow> (Exception + nat) \<times> Runtime"
  toNumber_RJS :: "Runtime \<Rightarrow> 'd HermesValue \<Rightarrow> (Exception + 'd) \<times> Runtime"
  toBoolean :: "'d HermesValue \<Rightarrow> bool"
  toDestType :: "ElemType \<Rightarrow> 'd \<Rightarrow> nat"
  SafeNumericEncoder :: "ElemType \<Rightarrow> nat \<Rightarrow> 'd"
  encodeNumberValue :: "nat \<Rightarrow> 'd"

subsection \<open>Reading and writing through a view\<close>

text \<open>The \<open>n\<close> low bytes of a bit pattern, least significant first.\<close>

definition storeChunk :: "nat \<Rightarrow> nat \<Rightarrow> byte list" where
  "storeChunk n v = map (\<lambda>i. word_of_nat (v div 256 ^ i mod 256)) [0 ..< n]"

text \<open>Modelled from the spec: \<^verbatim>\<open>JSDataView::get<T>\<close> (hermes/VM/JSDataView.h is missing).
  It reads \<open>sizeof(T)\<close> bytes at \<open>byteOffset + offset\<close> of the buffer and orders them by
  the endianness asked for. It touches the memory without a check of its own: called on
  a detached buffer, past the end of the view, or past the end of the storage, its
  behaviour is undefined, which is \<open>None\<close> here.\<close>

definition JSDataView_get ::
    "ElemType \<Rightarrow> Runtime \<Rightarrow> JSDataView \<Rightarrow> nat \<Rightarrow> bool \<Rightarrow> nat option" where
  "JSDataView_get T runtime self offset littleEndian =
     (let b = runtime (dv_buffer self); start = dv_byteOffset self + offset in
      if attached b \<and> offset + sizeofT T \<le> dv_byteLength self
         \<and> start + sizeofT T \<le> bufferSize b
      then
        let raw = take (sizeofT T) (drop start (dataBlock b)) in
        Some (loadChunk (if littleEndian then raw else rev raw))
      else None)"

text \<open>Modelled from the spec: \<^verbatim>\<open>JSDataView::set<T>\<close> (hermes/VM/JSDataView.h is missing).
  It writes the \<open>sizeof(T)\<close> bytes of the value, ordered by the endianness asked for, at
  \<open>byteOffset + offset\<close> of the buffer; undefined where \<^verbatim>\<open>get<T>\<close> is.\<close>

definition JSDataView_set ::
    "ElemType \<Rightarrow> Runtime \<Rightarrow> JSDataView \<Rightarrow> nat \<Rightarrow> nat \<Rightarrow> bool \<Rightarrow> Runtime option" where
  "JSDataView_set T runtime self offset v littleEndian =
     (let b = runtime (dv_buffer self); start = dv_byteOffset self + offset in
      if attached b \<and> offset + sizeofT T \<le> dv_byteLength self
         \<and> start + sizeofT T \<le> bufferSize b
      then
        let raw = storeChunk (sizeofT T) v;
            bytes = (if littleEndian then raw else rev raw) in
        Some (runtime (dv_buffer self :=
          b \<lparr>dataBlock :=
            take start (dataBlock b) @ bytes @ drop (start + sizeofT T) (dataBlock b)\<rparr>))
      else None)"

subsection \<open>DataView.prototype\<close>

definition dataViewPrototypeBuffer ::
    "'d Env \<Rightarrow> Runtime \<Rightarrow> 'd NativeArgs \<Rightarrow> (Exception + 'd HermesValue) \<times> Runtime" where
  "dataViewPrototypeBuffer env runtime args =
     (case dyncastThis args of
        None \<Rightarrow>
          (raiseTypeError ''DataView.prototype.buffer called on a non DataView object'',
           runtime)
      | Some self \<Rightarrow> (Inr (ArrayBufferObject (dv_buffer self)), runtime))"

definition dataViewPrototypeByteLength ::
    "'d Env \<Rightarrow> Runtime \<Rightarrow> 'd NativeArgs \<Rightarrow> (Exception + 'd HermesValue) \<times> Runtime" where
  "dataViewPrototypeByteLength env runtime args =
     (case dyncastThis args of
        None \<Rightarrow>
          (raiseTypeError ''DataView.prototype.byteLength called on a non DataView object'',
           runtime)
      | Some self \<Rightarrow>
          (Inr (NumberValue (encodeNumberValue env (dv_byteLength self))), runtime))"

definition dataViewPrototypeByteOffset ::
    "'d Env \<Rightarrow> Runtime \<Rightarrow> 'd NativeArgs \<Rightarrow> (Exception + 'd HermesValue) \<times> Runtime" where
  "dataViewPrototypeByteOffset env runtime args =
     (case dyncastThis args of
        None \<Rightarrow>
          (raiseTypeError ''DataView.prototype.byteOffset called on a non DataView object'',
           runtime)
      | Some self \<Rightarrow>
          (Inr (NumberValue (encodeNumberValue env (dv_byteOffset self))), runtime))"

text \<open>\<^verbatim>\<open>dataViewPrototypeGet<T>\<close>. The offset is read from the result of \<open>toIndex\<close> as a
  \<^verbatim>\<open>uint64_t\<close>, and \<^verbatim>\<open>byteOffset + sizeof(T)\<close> is a sum of 64-bit unsigned integers:
  it wraps. \<open>None\<close> is undefined behaviour of the memory access.\<close>

definition dataViewPrototypeGet ::
    "'d Env \<Rightarrow> ElemType \<Rightarrow> Runtime \<Rightarrow> 'd NativeArgs
      \<Rightarrow> ((Exception + 'd HermesValue) \<times> Runtime) option" where
  "dataViewPrototypeGet env T runtime args =
     (case dyncastThis args of
        None \<Rightarrow>
          Some (raiseTypeError
            ''DataView.prototype.get<Type>() called on a non DataView object'', runtime)
      | Some self \<Rightarrow>
          (case toIndex env runtime (getArg args 0) of
             (Inl e, runtime1) \<Rightarrow> Some (Inl e, runtime1)
           | (Inr byteOffset, runtime1) \<Rightarrow>
               let littleEndian = toBoolean env (getArg args 1) in
               if \<not> attached (runtime1 (dv_buffer self)) then
                 Some (raiseTypeError
                   ''DataView.prototype.get<Type>() called on a detached ArrayBuffer'',
                   runtime1)
               else if (byteOffset + sizeofT T) mod 2 ^ 64 > dv_byteLength self then
                 Some (raiseRangeError
                   ''DataView.prototype.get<Type>(): Cannot read that many bytes'',
                   runtime1)
               else
                 (case JSDataView_get T runtime1 self byteOffset littleEndian of
                    None \<Rightarrow> None
                  | Some v \<Rightarrow>
                      Some (Inr (NumberValue (SafeNumericEncoder env T v)), runtime1))))"

text \<open>\<^verbatim>\<open>dataViewPrototypeSet<T, C>\<close>; the cell kind \<open>C\<close> is the typed array kind of \<open>T\<close>
  and only selects \<^verbatim>\<open>toDestType\<close>.\<close>

definition dataViewPrototypeSet ::
    "'d Env \<Rightarrow> ElemType \<Rightarrow> Runtime \<Rightarrow> 'd NativeArgs
      \<Rightarrow> ((Exception + 'd HermesValue) \<times> Runtime) option" where
  "dataViewPrototypeSet env T runtime args =
     (case dyncastThis args of
        None \<Rightarrow>
          Some (raiseTypeError
            ''DataView.prototype.set<Type>() called on a non DataView object'', runtime)
      | Some self \<Rightarrow>
          (case toIndex env runtime (getArg args 0) of
             (Inl e, runtime1) \<Rightarrow> Some (Inl e, runtime1)
           | (Inr byteOffset, runtime1) \<Rightarrow>
               let littleEndian = toBoolean env (getArg args 2) in
               (case toNumber_RJS env runtime1 (getArg args 1) of
                  (Inl e, runtime2) \<Rightarrow> Some (Inl e, runtime2)
                | (Inr number, runtime2) \<Rightarrow>
                    if \<not> attached (runtime2 (dv_buffer self)) then
                      Some (raiseTypeError
                        ''DataView.prototype.set<Type> called on a detached ArrayBuffer'',
                        runtime2)
                    else
                      let v = toDestType env T number in
                      if (byteOffset + sizeofT T) mod 2 ^ 64 > dv_byteLength self then
                        Some (raiseRangeError
                          ''DataView.prototype.set<Type>(): Cannot write that many bytes'',
                          runtime2)
                      else
                        (case JSDataView_set T runtime2 self byteOffset v littleEndian of
                           None \<Rightarrow> None
                         | Some runtime3 \<Rightarrow> Some (Inr UndefinedValue, runtime3)))))"

subsection \<open>The constructor\<close>

text \<open>\<^verbatim>\<open>dataViewConstructor\<close>. The view under construction is the object the call
  returns. \<^verbatim>\<open>viewByteLength\<close> is a double in the source and \<^verbatim>\<open>offset + viewByteLength\<close>
  a sum of doubles; as \<^verbatim>\<open>bufferByteLength\<close> is below \<open>2^32\<close> and rounding is monotone,
  the comparison is that of the integers.\<close>

definition dataViewConstructor ::
    "'d Env \<Rightarrow> Runtime \<Rightarrow> 'd NativeArgs \<Rightarrow> (Exception + 'd HermesValue) \<times> Runtime" where
  "dataViewConstructor env runtime args =
     (if \<not> isConstructorCall args then
        (raiseTypeError ''DataView() called in function context instead of constructor'',
         runtime)
      else
        let byteLength = getArg args 2 in
        (case dyncastArg args 0 of
           None \<Rightarrow>
             (raiseTypeError
               ''new DataView(buffer, [byteOffset], [byteLength]): buffer must be an ArrayBuffer'',
              runtime)
         | Some buffer \<Rightarrow>
             (case toIndex env runtime (getArg args 1) of
                (Inl e, runtime1) \<Rightarrow> (Inl e, runtime1)
              | (Inr offset, runtime1) \<Rightarrow>
                  let bufferByteLength = bufferSize (runtime1 buffer) in
                  if offset > bufferByteLength then
                    (raiseRangeError
                      ''new DataView(buffer, [byteOffset], [byteLength]): byteOffset must be <= the buffer's byte length'',
                     runtime1)
                  else if isUndefined byteLength then
                    (Inr (DataViewObject
                       \<lparr>dv_buffer = buffer, dv_byteOffset = offset,
                        dv_byteLength = bufferByteLength - offset\<rparr>), runtime1)
                  else
                    (case toIndex env runtime1 byteLength of
                       (Inl e, runtime2) \<Rightarrow> (Inl e, runtime2)
                     | (Inr viewByteLength, runtime2) \<Rightarrow>
                         if offset + viewByteLength > bufferByteLength then
                           (raiseRangeError
                             ''new DataView(buffer, [byteOffset], [byteLength]): byteOffset + byteLength must be <= the length of the buffer'',
                            runtime2)
                         else
                           (Inr (DataViewObject
                              \<lparr>dv_buffer = buffer, dv_byteOffset = offset,
                               dv_byteLength = viewByteLength\<rparr>), runtime2)))))"

subsection \<open>Invariants and examples\<close>

text \<open>The window of a view lies within the storage of its buffer, whose size is a
  32-bit quantity (\<^verbatim>\<open>size_type\<close>). The constructor establishes the first part against
  the length it measured.\<close>

definition viewInBuffer :: "Runtime \<Rightarrow> JSDataView \<Rightarrow> bool" where
  "viewInBuffer runtime self =
     (dv_byteOffset self + dv_byteLength self \<le> bufferSize (runtime (dv_buffer self))
      \<and> bufferSize (runtime (dv_buffer self)) < 2 ^ 32)"

text \<open>The state the argument coercions of \<^verbatim>\<open>set<T>\<close> leave behind: the state before the
  call when the receiver is not a view, the state after \<open>toIndex\<close> when it fails, the
  state after \<open>toNumber_RJS\<close> otherwise.\<close>

definition runtimeAfterSetCoercions :: "'d Env \<Rightarrow> Runtime \<Rightarrow> 'd NativeArgs \<Rightarrow> Runtime" where
  "runtimeAfterSetCoercions env runtime args =
     (case dyncastThis args of
        None \<Rightarrow> runtime
      | Some self \<Rightarrow>
          (case toIndex env runtime (getArg args 0) of
             (Inl e, runtime1) \<Rightarrow> runtime1
           | (Inr n, runtime1) \<Rightarrow> snd (toNumber_RJS env runtime1 (getArg args 1))))"

text \<open>An environment for the examples. Numbers are integers; a number coerces to itself
  with no effect; coercing the object \<open>OtherObject a\<close> runs user code (its
  \<^verbatim>\<open>valueOf\<close>) that detaches the buffer at \<open>a\<close> and yields 8. The conversions are those
  of the unsigned integer types, which are the ones the examples use.\<close>

definition exampleEnv :: "int Env" where
  "exampleEnv =
     \<lparr>toIndex = (\<lambda>runtime v. case v of
          UndefinedValue \<Rightarrow> (Inr 0, runtime)
        | NumberValue n \<Rightarrow>
            if 0 \<le> n \<and> n \<le> 2 ^ 53 - 1 then (Inr (nat n), runtime)
            else (Inl (RangeError ''index out of range''), runtime)
        | OtherObject a \<Rightarrow> (Inr 8, detach a runtime)
        | _ \<Rightarrow> (Inl (TypeError ''cannot convert to a number''), runtime)),
      toNumber_RJS = (\<lambda>runtime v. case v of
          NumberValue n \<Rightarrow> (Inr n, runtime)
        | OtherObject a \<Rightarrow> (Inr 8, detach a runtime)
        | _ \<Rightarrow> (Inl (TypeError ''cannot convert to a number''), runtime)),
      toBoolean = (\<lambda>v. case v of BoolValue b \<Rightarrow> b | _ \<Rightarrow> False),
      toDestType = (\<lambda>T n. nat (n mod 2 ^ (8 * sizeofT T))),
      SafeNumericEncoder = (\<lambda>T v. int v),
      encodeNumberValue = int\<rparr>"

text \<open>A store in which every address holds an attached buffer of the eight bytes 1 to 8.\<close>

definition exampleRuntime :: Runtime where
  "exampleRuntime = (\<lambda>a. \<lparr>dataBlock = [1, 2, 3, 4, 5, 6, 7, 8], attached = True\<rparr>)"

text \<open>A view of bytes 2 to 5 of the buffer at address 0, and the empty view at its end.\<close>

definition exampleView :: JSDataView where
  "exampleView = \<lparr>dv_buffer = 0, dv_byteOffset = 2, dv_byteLength = 4\<rparr>"

definition emptyView :: JSDataView where
  "emptyView = \<lparr>dv_buffer = 0, dv_byteOffset = 8, dv_byteLength = 0\<rparr>"

text \<open>A method call on \<open>this\<close> with the given arguments, and a constructor call.\<close>

definition methodCall :: "'d HermesValue \<Rightarrow> 'd HermesValue list \<Rightarrow> 'd NativeArgs" where
  "methodCall this as = \<lparr>thisArg = this, argv = as, isConstructorCall = False\<rparr>"

definition constructorCall :: "'d HermesValue list \<Rightarrow> 'd NativeArgs" where
  "constructorCall as = \<lparr>thisArg = UndefinedValue, argv = as, isConstructorCall = True\<rparr>"

section \<open>The unit tests hold of the models\<close>

lemmas utf8_eval =
  encodeUTF8_def isHighSurrogate_def isLowSurrogate_def isSurrogate_def
  decodeSurrogatePair_def UNICODE_REPLACEMENT_CHARACTER_def
  convertExact_def convertReplacing_def

lemma UTF16ToUTF8StringWithSingleSurrogates_pass:
  "list_all (\<lambda>(cs, bs). convertExact cs = bs) UTF16ToUTF8StringWithSingleSurrogates"
  by (simp add: UTF16ToUTF8StringWithSingleSurrogates_def utf8_eval)

lemma UTF16ToUTF8StringWithReplacements_pass:
  "list_all (\<lambda>(cs, bs). convertReplacing cs = bs) UTF16ToUTF8StringWithReplacements"
  by (simp add: UTF16ToUTF8StringWithReplacements_def utf8_eval)

section \<open>Surrogates and their encodings\<close>

lemma unat_ucast_16_32: "unat (ucast (c :: char16) :: char32) = unat c"
proof -
  have "unat c < 2 ^ 16" using unsigned_less[of c] by simp
  then show ?thesis by (simp add: unsigned_ucast_eq take_bit_eq_mod)
qed

lemma decodeSurrogatePair_unat:
  assumes "isHighSurrogate hi" "isLowSurrogate lo"
  shows "unat (decodeSurrogatePair hi lo) = 0x10000 + (unat hi - 0xD800) * 0x400 + (unat lo - 0xDC00)"
proof -
  have h: "0xD800 \<le> unat hi" "unat hi \<le> 0xDBFF" and l: "0xDC00 \<le> unat lo" "unat lo \<le> 0xDFFF"
    using assms by (simp_all add: isHighSurrogate_def isLowSurrogate_def word_le_nat_alt)
  define a :: char32 where "a = ucast hi - 0xD800"
  define b :: char32 where "b = ucast lo - 0xDC00"
  have a: "unat a = unat hi - 0xD800"
    unfolding a_def using h by (simp add: unat_sub word_le_nat_alt unat_ucast_16_32)
  have b: "unat b = unat lo - 0xDC00"
    unfolding b_def using l by (simp add: unat_sub word_le_nat_alt unat_ucast_16_32)
  have c: "unat (a * 0x400) = (unat hi - 0xD800) * 0x400"
    using h a by (simp add: unat_word_ariths)
  have d: "unat (0x10000 + a * 0x400) = 0x10000 + (unat hi - 0xD800) * 0x400"
    using h c by (simp add: unat_word_ariths)
  have "unat (0x10000 + a * 0x400 + b) = 0x10000 + (unat hi - 0xD800) * 0x400 + (unat lo - 0xDC00)"
    using h l b d by (simp add: unat_word_ariths(1))
  then show ?thesis
    unfolding decodeSurrogatePair_def a_def b_def .
qed

lemma exact_append: "convertUTF16ToUTF8WithSingleSurrogates (a @ out) cs = a @ convertUTF16ToUTF8WithSingleSurrogates out cs"
  by (induction cs arbitrary: out) simp_all

lemma repl_append: "convertUTF16ToUTF8WithReplacements (a @ out) cs = a @ convertUTF16ToUTF8WithReplacements out cs"
  by (induction out cs rule: convertUTF16ToUTF8WithReplacements.induct) (simp_all split: list.splits)

lemma isSurrogate_iff: "isSurrogate c \<longleftrightarrow> isHighSurrogate c \<or> isLowSurrogate c"
  by (auto simp add: isSurrogate_def isHighSurrogate_def isLowSurrogate_def word_le_nat_alt)

lemma high_not_low: "isHighSurrogate c \<Longrightarrow> \<not> isLowSurrogate c"
  by (auto simp add: isHighSurrogate_def isLowSurrogate_def word_le_nat_alt)

lemma surrogate_not_ascii: "isSurrogate c \<Longrightarrow> \<not> c \<le> 0x7F"
  by (auto simp add: isSurrogate_def word_le_nat_alt)

lemma ascii_encodeUTF8: "c \<le> 0x7F \<Longrightarrow> encodeUTF8 (ucast (c :: char16)) = [ucast c]"
proof -
  assume "c \<le> 0x7F"
  then have "(ucast c :: char32) \<le> 0x7F" by (simp add: word_le_nat_alt unat_ucast_16_32)
  moreover have "(ucast (ucast c :: char32) :: byte) = ucast c"
    by (rule bit_word_eqI) (auto simp add: bit_ucast_iff)
  ultimately show ?thesis by (simp add: encodeUTF8_def)
qed

lemma replacement_bytes: "encodeUTF8 UNICODE_REPLACEMENT_CHARACTER = [0xEF, 0xBF, 0xBD]"
  by (simp add: encodeUTF8_def UNICODE_REPLACEMENT_CHARACTER_def)

lemma surrogate_bit13: "isSurrogate c \<Longrightarrow> \<not> bit c 13"
proof -
  assume "isSurrogate c"
  then have h: "0xD800 \<le> unat c" "unat c \<le> 0xDFFF"
    by (simp_all add: isSurrogate_def word_le_nat_alt)
  then have "unat c div 2 ^ 13 = 6" by simp
  then have "\<not> bit (unat c) 13" by (simp add: bit_iff_odd)
  then show ?thesis by (simp add: bit_unsigned_iff)
qed

lemma surr_first: "isSurrogate c \<Longrightarrow> \<exists>b0 b1 b2. encodeUTF8 (ucast c) = [b0, b1, b2] \<and> \<not> bit b0 1 \<and> \<not> bit b0 4"
proof -
  assume s: "isSurrogate c"
  then have h: "0xD800 \<le> unat c" "unat c \<le> 0xDFFF"
    by (simp_all add: isSurrogate_def word_le_nat_alt)
  have r: "\<not> (ucast c :: char32) \<le> 0x7FF" "(ucast c :: char32) \<le> 0xFFFF" "\<not> (ucast c :: char32) \<le> 0x7F"
    using h by (simp_all add: word_le_nat_alt unat_ucast_16_32)
  have "bit (ucast (drop_bit 12 (ucast c :: char32)) :: byte) 1 = bit c 13"
    by (simp add: bit_ucast_iff bit_drop_bit_eq)
  then have b1: "\<not> bit (0xE0 OR ucast (drop_bit 12 (ucast c :: char32)) :: byte) 1"
    using surrogate_bit13[OF s] by (simp add: bit_or_iff)
  have "bit (ucast (drop_bit 12 (ucast c :: char32)) :: byte) 4 = False"
    by (auto simp add: bit_ucast_iff bit_drop_bit_eq dest: bit_imp_le_length)
  then have b4: "\<not> bit (0xE0 OR ucast (drop_bit 12 (ucast c :: char32)) :: byte) 4"
    by (simp add: bit_or_iff)
  show ?thesis using r b1 b4 by (simp add: encodeUTF8_def)
qed

lemma pair_first: "isHighSurrogate c \<Longrightarrow> isLowSurrogate d \<Longrightarrow> \<exists>b0 b1 b2 b3. encodeUTF8 (decodeSurrogatePair c d) = [b0,b1,b2,b3] \<and> bit b0 4"
proof -
  assume a: "isHighSurrogate c" "isLowSurrogate d"
  have "0x10000 \<le> unat (decodeSurrogatePair c d)" using decodeSurrogatePair_unat[OF a] by simp
  then have r: "\<not> decodeSurrogatePair c d \<le> 0x7F" "\<not> decodeSurrogatePair c d \<le> 0x7FF" "\<not> decodeSurrogatePair c d \<le> 0xFFFF"
    by (simp_all add: word_le_nat_alt)
  have "bit (0xF0 OR x :: byte) 4" for x by (simp add: bit_or_iff)
  then show ?thesis using r by (simp add: encodeUTF8_def)
qed

section \<open>Where the two transcoders part\<close>

lemma exact_surr:
  assumes "isSurrogate c"
  shows "\<exists>b0 bs. convertUTF16ToUTF8WithSingleSurrogates out (c # cs) = out @ b0 # bs \<and> \<not> bit b0 1 \<and> \<not> bit b0 4"
proof -
  obtain b0 b1 b2 where e: "encodeUTF8 (ucast c) = [b0, b1, b2]" "\<not> bit b0 1" "\<not> bit b0 4"
    using surr_first[OF assms] by blast
  have "convertUTF16ToUTF8WithSingleSurrogates out (c # cs)
      = out @ b0 # ([b1, b2] @ convertUTF16ToUTF8WithSingleSurrogates [] cs)"
    using exact_append[of "out @ [b0, b1, b2]" "[]" cs] e(1) by simp
  then show ?thesis using e(2,3) by blast
qed

lemma repl_surr:
  assumes "isSurrogate c"
  shows "\<exists>b0 bs. convertUTF16ToUTF8WithReplacements out (c # cs) = out @ b0 # bs \<and> (bit b0 1 \<or> bit b0 4)"
proof -
  have na: "\<not> c \<le> 0x7F" using surrogate_not_ascii[OF assms] .
  have lone: "\<exists>b0 bs. out @ encodeUTF8 UNICODE_REPLACEMENT_CHARACTER @ rest = out @ b0 # bs \<and> (bit b0 1 \<or> bit b0 4)" for rest
    by (simp add: replacement_bytes)
  show ?thesis
  proof (cases "isLowSurrogate c")
    case True
    then have "convertUTF16ToUTF8WithReplacements out (c # cs)
        = out @ encodeUTF8 UNICODE_REPLACEMENT_CHARACTER @ convertUTF16ToUTF8WithReplacements [] cs"
      using na repl_append[of "out @ encodeUTF8 UNICODE_REPLACEMENT_CHARACTER" "[]" cs] by simp
    then show ?thesis using lone by metis
  next
    case False
    then have hi: "isHighSurrogate c" using assms by (simp add: isSurrogate_iff)
    show ?thesis
    proof (cases cs)
      case Nil
      then have "convertUTF16ToUTF8WithReplacements out (c # cs)
        = out @ encodeUTF8 UNICODE_REPLACEMENT_CHARACTER @ []"
        using na False hi by simp
      then show ?thesis using lone by metis
    next
      case (Cons d ds)
      show ?thesis
      proof (cases "isLowSurrogate d")
        case True
        obtain b0 b1 b2 b3 where e: "encodeUTF8 (decodeSurrogatePair c d) = [b0,b1,b2,b3]" "bit b0 4"
          using pair_first[OF hi True] by blast
        have "convertUTF16ToUTF8WithReplacements out (c # cs)
          = out @ b0 # ([b1,b2,b3] @ convertUTF16ToUTF8WithReplacements [] ds)"
          using na False hi True Cons e(1) repl_append[of "out @ [b0,b1,b2,b3]" "[]" ds] by simp
        then show ?thesis using e(2) by blast
      next
        case nl: False
        have "convertUTF16ToUTF8WithReplacements out (c # cs)
          = out @ encodeUTF8 UNICODE_REPLACEMENT_CHARACTER @ convertUTF16ToUTF8WithReplacements [] cs"
          using na False hi nl Cons repl_append[of "out @ encodeUTF8 UNICODE_REPLACEMENT_CHARACTER" "[]" cs] by simp
        then show ?thesis using lone by metis
      qed
    qed
  qed
qed

lemma repl_plain:
  assumes "\<not> isSurrogate c"
  shows "convertUTF16ToUTF8WithReplacements out (c # cs) = convertUTF16ToUTF8WithReplacements (out @ encodeUTF8 (ucast c)) cs"
  using assms by (simp add: isSurrogate_iff ascii_encodeUTF8)

lemma transcoders_agree_iff:
  "convertUTF16ToUTF8WithSingleSurrogates out cs = convertUTF16ToUTF8WithReplacements out cs
     \<longleftrightarrow> list_all (\<lambda>c. \<not> isSurrogate c) cs"
proof (induction cs arbitrary: out)
  case Nil
  show ?case by simp
next
  case (Cons c cs)
  show ?case
  proof (cases "isSurrogate c")
    case True
    obtain b0 bs where a: "convertUTF16ToUTF8WithSingleSurrogates out (c # cs) = out @ b0 # bs" "\<not> bit b0 1" "\<not> bit b0 4"
      using exact_surr[OF True] by blast
    obtain b0' bs' where b: "convertUTF16ToUTF8WithReplacements out (c # cs) = out @ b0' # bs'" "bit b0' 1 \<or> bit b0' 4"
      using repl_surr[OF True] by blast
    have "b0 \<noteq> b0'" using a(2,3) b(2) by auto
    then have "convertUTF16ToUTF8WithSingleSurrogates out (c # cs) \<noteq> convertUTF16ToUTF8WithReplacements out (c # cs)"
      using a(1) b(1) by simp
    then show ?thesis using True by simp
  next
    case False
    then show ?thesis using Cons.IH[of "out @ encodeUTF8 (ucast c)"] repl_plain[OF False]
      by simp
  qed
qed

section \<open>The replacement mode, position by position\<close>

lemma nth_mid: "(pre @ c # cs) ! length pre = c"
  by simp

lemma nth_mid1: "(pre @ c # d # ds) ! Suc (length pre) = d"
  by (simp add: nth_append)

lemma pairedLeadAt_mid:
  "pairedLeadAt (pre @ c # cs) (length pre) \<longleftrightarrow>
     isHighSurrogate c \<and> (case cs of [] \<Rightarrow> False | d # ds \<Rightarrow> isLowSurrogate d)"
  by (cases cs) (simp_all add: pairedLeadAt_def nth_append)

lemma pairedTrailAt_next:
  "pairedTrailAt ((pre @ [c]) @ cs) (length (pre @ [c])) \<longleftrightarrow> pairedLeadAt (pre @ c # cs) (length pre)"
  by (simp add: pairedTrailAt_def)

lemma bytesAt_plain:
  assumes "\<not> isSurrogate c"
  shows "replacementBytesAt (pre @ c # cs) (length pre) = encodeUTF8 (ucast c)"
proof -
  have "\<not> pairedLeadAt (pre @ c # cs) (length pre)"
    using assms by (simp add: pairedLeadAt_mid isSurrogate_iff)
  moreover have "\<not> pairedTrailAt (pre @ c # cs) (length pre)"
    using assms by (auto simp add: pairedTrailAt_def pairedLeadAt_def isSurrogate_iff)
  moreover have "\<not> loneSurrogateAt (pre @ c # cs) (length pre)"
    using assms by (simp add: loneSurrogateAt_def)
  ultimately show ?thesis by (simp add: replacementBytesAt_def)
qed

lemma bytesAt_lone:
  assumes "isSurrogate c" "\<not> pairedTrailAt (pre @ c # cs) (length pre)"
      "\<not> pairedLeadAt (pre @ c # cs) (length pre)"
  shows "replacementBytesAt (pre @ c # cs) (length pre) = encodeUTF8 UNICODE_REPLACEMENT_CHARACTER"
  using assms by (simp add: replacementBytesAt_def loneSurrogateAt_def replacement_bytes)

lemma bytesAt_lead:
  assumes "isHighSurrogate c" "isLowSurrogate d"
  shows "replacementBytesAt (pre @ c # d # ds) (length pre) = encodeUTF8 (decodeSurrogatePair c d)"
proof -
  have "pairedLeadAt (pre @ c # d # ds) (length pre)"
    using assms by (simp add: pairedLeadAt_mid)
  then show ?thesis by (simp add: replacementBytesAt_def loneSurrogateAt_def nth_append)
qed

lemma bytesAt_trail:
  assumes "isHighSurrogate c" "isLowSurrogate d"
  shows "replacementBytesAt (pre @ c # d # ds) (Suc (length pre)) = []"
proof -
  have t: "pairedTrailAt (pre @ c # d # ds) (Suc (length pre))"
    using assms by (simp add: pairedTrailAt_def pairedLeadAt_mid)
  have "\<not> isHighSurrogate d" using assms(2) high_not_low by blast
  then have "\<not> pairedLeadAt (pre @ c # d # ds) (Suc (length pre))"
    by (simp add: pairedLeadAt_def nth_append)
  then show ?thesis using t by (simp add: replacementBytesAt_def loneSurrogateAt_def)
qed

lemma repl_positions_aux:
  "\<not> pairedTrailAt (pre @ cs) (length pre) \<Longrightarrow>
   convertUTF16ToUTF8WithReplacements out cs =
     out @ concat (map (replacementBytesAt (pre @ cs)) [length pre ..< length pre + length cs])"
proof (induction "length cs" arbitrary: cs pre out rule: less_induct)
  case less
  show ?case
  proof (cases cs)
    case Nil
    then show ?thesis by simp
  next
    case (Cons c cs')
    have upt: "[length pre ..< length pre + length cs] = length pre # [length (pre @ [c]) ..< length (pre @ [c]) + length cs']"
      using Cons by (simp add: upt_conv_Cons del: upt_Suc)
    have app: "pre @ cs = (pre @ [c]) @ cs'" using Cons by simp
    have step: "\<not> pairedLeadAt (pre @ c # cs') (length pre) \<Longrightarrow>
        convertUTF16ToUTF8WithReplacements (out @ x) cs' =
          (out @ x) @ concat (map (replacementBytesAt (pre @ cs)) [length (pre @ [c]) ..< length (pre @ [c]) + length cs'])" for x
      using less.hyps[of cs' "pre @ [c]" "out @ x"] Cons pairedTrailAt_next[of pre c cs'] by simp
    have nt: "\<not> pairedTrailAt (pre @ c # cs') (length pre)" using less.prems Cons by simp
    show ?thesis
    proof (cases "isSurrogate c")
      case False
      have nl: "\<not> pairedLeadAt (pre @ c # cs') (length pre)"
        using False by (simp add: pairedLeadAt_mid isSurrogate_iff)
      show ?thesis
        unfolding upt using step[OF nl, of "encodeUTF8 (ucast c)"] repl_plain[OF False, of out cs'] bytesAt_plain[OF False, of pre cs'] Cons
        by simp
    next
      case True
      have na: "\<not> c \<le> 0x7F" using surrogate_not_ascii[OF True] .
      show ?thesis
      proof (cases "pairedLeadAt (pre @ c # cs') (length pre)")
        case nl: False
        have r: "convertUTF16ToUTF8WithReplacements out (c # cs') =
           convertUTF16ToUTF8WithReplacements (out @ encodeUTF8 UNICODE_REPLACEMENT_CHARACTER) cs'"
          using na True nl by (cases cs') (auto simp add: pairedLeadAt_mid isSurrogate_iff)
        show ?thesis
          unfolding upt using step[OF nl, of "encodeUTF8 UNICODE_REPLACEMENT_CHARACTER"] r bytesAt_lone[OF True nt nl] Cons
          by simp
      next
        case pl: True
        then obtain d ds where cs': "cs' = d # ds" and hi: "isHighSurrogate c" and lo: "isLowSurrogate d"
          by (cases cs') (auto simp add: pairedLeadAt_mid)
        have nlo: "\<not> isLowSurrogate c" using hi high_not_low by blast
        have nhd: "\<not> isHighSurrogate d" using lo high_not_low by blast
        have r: "convertUTF16ToUTF8WithReplacements out cs =
           convertUTF16ToUTF8WithReplacements (out @ encodeUTF8 (decodeSurrogatePair c d)) ds"
          using na hi lo nlo Cons cs' by simp
        have ntr: "\<not> pairedTrailAt ((pre @ [c, d]) @ ds) (length (pre @ [c, d]))"
          using nhd by (simp add: pairedTrailAt_def pairedLeadAt_def nth_append)
        have ih: "convertUTF16ToUTF8WithReplacements (out @ encodeUTF8 (decodeSurrogatePair c d)) ds =
            (out @ encodeUTF8 (decodeSurrogatePair c d)) @
              concat (map (replacementBytesAt ((pre @ [c, d]) @ ds)) [length (pre @ [c, d]) ..< length (pre @ [c, d]) + length ds])"
          using less.hyps[of ds "pre @ [c, d]" "out @ encodeUTF8 (decodeSurrogatePair c d)", OF _ ntr] Cons cs' by simp
        have upt2: "[length pre ..< length pre + length cs] =
            length pre # Suc (length pre) # [length (pre @ [c, d]) ..< length (pre @ [c, d]) + length ds]"
          using Cons cs' by (simp add: upt_conv_Cons del: upt_Suc)
        show ?thesis
          unfolding upt2 using r ih bytesAt_lead[OF hi lo, of pre ds] bytesAt_trail[OF hi lo, of pre ds] Cons cs'
          by simp
      qed
    qed
  qed
qed

lemma replacements_by_position:
  "convertUTF16ToUTF8WithReplacements out cs =
     out @ concat (map (replacementBytesAt cs) [0 ..< length cs])"
  using repl_positions_aux[of "[]" cs out] by (simp add: pairedTrailAt_def)

section \<open>The claims about the transcoders\<close>

text \<open>C1 (as amended). The exact-mode transcoder maps \<open>[0xD83D, 0xDE39]\<close> to the six
  bytes \<open>[0xED,0xA0,0xBD,0xED,0xB8,0xB9]\<close> (each surrogate of the pair encoded on its
  own, as the unit test expects), \<open>[0xD83D]\<close> alone to \<open>[0xED,0xA0,0xBD]\<close>, and
  \<open>['a', 0xD83D, 'b']\<close> to \<open>['a',0xED,0xA0,0xBD,'b']\<close>.\<close>

theorem C1_exact_mode_vectors:
  "convertExact [0xD83D, 0xDE39] = [0xED, 0xA0, 0xBD, 0xED, 0xB8, 0xB9] \<and>
   convertExact [0xD83D] = [0xED, 0xA0, 0xBD] \<and>
   convertExact [0x61, 0xD83D, 0x62] = [0x61, 0xED, 0xA0, 0xBD, 0x62]"
  by (simp add: utf8_eval)

text \<open>C1 as stated fails: the pair does not become the four bytes of U+1F639.\<close>

theorem C1_counterexample:
  "convertExact [0xD83D, 0xDE39] \<noteq> [0xF0, 0x9F, 0x98, 0xB9]"
  by (simp add: utf8_eval)

text \<open>C2 (as amended). The exact-mode and the replacement-mode transcoder produce
  identical output exactly for the code-unit sequences that contain no surrogate unit at
  all. On a valid lead and trail pair they differ: the replacement mode consumes both
  units and emits the 4-byte sequence of the scalar value
  \<open>0x10000 + (lead - 0xD800) * 0x400 + (trail - 0xDC00)\<close>; the exact mode emits two
  3-byte sequences, one for each unit.\<close>

theorem C2_transcoders_agree_iff_no_surrogate:
  "(convertUTF16ToUTF8WithSingleSurrogates out cs = convertUTF16ToUTF8WithReplacements out cs
      \<longleftrightarrow> list_all (\<lambda>c. \<not> isSurrogate c) cs) \<and>
   (isHighSurrogate hi \<and> isLowSurrogate lo \<longrightarrow>
      convertUTF16ToUTF8WithReplacements out (hi # lo # cs) =
        convertUTF16ToUTF8WithReplacements (out @ encodeUTF8 (decodeSurrogatePair hi lo)) cs \<and>
      length (encodeUTF8 (decodeSurrogatePair hi lo)) = 4 \<and>
      unat (decodeSurrogatePair hi lo) =
        0x10000 + (unat hi - 0xD800) * 0x400 + (unat lo - 0xDC00) \<and>
      convertUTF16ToUTF8WithSingleSurrogates out (hi # lo # cs) =
        convertUTF16ToUTF8WithSingleSurrogates
          (out @ encodeUTF8 (ucast hi) @ encodeUTF8 (ucast lo)) cs \<and>
      length (encodeUTF8 (ucast hi)) = 3 \<and> length (encodeUTF8 (ucast lo)) = 3)"
proof -
  have pair: ?thesis if hi: "isHighSurrogate hi" and lo: "isLowSurrogate lo"
  proof -
    have nlo: "\<not> isLowSurrogate hi" using hi high_not_low by blast
    have na: "\<not> hi \<le> 0x7F" using hi surrogate_not_ascii isSurrogate_iff by blast
    have r: "convertUTF16ToUTF8WithReplacements out (hi # lo # cs) =
        convertUTF16ToUTF8WithReplacements (out @ encodeUTF8 (decodeSurrogatePair hi lo)) cs"
      using hi lo nlo na by simp
    obtain b0 b1 b2 b3 where "encodeUTF8 (decodeSurrogatePair hi lo) = [b0, b1, b2, b3]"
      using pair_first[OF hi lo] by blast
    then have l4: "length (encodeUTF8 (decodeSurrogatePair hi lo)) = 4" by simp
    have "isSurrogate hi" "isSurrogate lo" using hi lo by (simp_all add: isSurrogate_iff)
    then obtain x0 x1 x2 y0 y1 y2 where
      "encodeUTF8 (ucast hi) = [x0, x1, x2]" "encodeUTF8 (ucast lo) = [y0, y1, y2]"
      using surr_first by blast
    then have l3: "length (encodeUTF8 (ucast hi)) = 3" "length (encodeUTF8 (ucast lo)) = 3"
      by simp_all
    show ?thesis
      using transcoders_agree_iff[of out cs] r l4 l3 decodeSurrogatePair_unat[OF hi lo]
      by simp
  qed
  show ?thesis
  proof (cases "isHighSurrogate hi \<and> isLowSurrogate lo")
    case True
    then show ?thesis using pair by blast
  next
    case False
    then show ?thesis using transcoders_agree_iff[of out cs] by blast
  qed
qed

theorem C2_witness:
  "convertUTF16ToUTF8WithSingleSurrogates [] [0x61, 0x2603] =
     convertUTF16ToUTF8WithReplacements [] [0x61, 0x2603] \<and>
   list_all (\<lambda>c. \<not> isSurrogate c) [0x61, 0x2603 :: char16] \<and>
   isHighSurrogate 0xD83D \<and> isLowSurrogate 0xDE39 \<and>
   convertUTF16ToUTF8WithReplacements [] [0xD83D, 0xDE39] = [0xF0, 0x9F, 0x98, 0xB9] \<and>
   unat (decodeSurrogatePair 0xD83D 0xDE39) = 0x1F639 \<and>
   convertUTF16ToUTF8WithSingleSurrogates [] [0xD83D, 0xDE39] =
     [0xED, 0xA0, 0xBD, 0xED, 0xB8, 0xB9]"
  using C2_transcoders_agree_iff_no_surrogate [of "[]" "[0x61, 0x2603]" "0xD83D" "0xDE39"]
  by (simp add: utf8_eval)

text \<open>C2 as stated fails: \<open>[0xD83D, 0xDE39]\<close> is well formed, and the two modes
  give different bytes for it.\<close>

theorem C2_counterexample:
  "wellFormedUTF16 [0xD83D, 0xDE39] \<and>
   convertExact [0xD83D, 0xDE39] \<noteq> convertReplacing [0xD83D, 0xDE39]"
  by (simp add: wellFormedUTF16_def loneSurrogateAt_def pairedLeadAt_def pairedTrailAt_def
      utf8_eval upt_conv_Cons)

text \<open>C5. The replacement-mode transcoder emits \<open>0xEF 0xBF 0xBD\<close> for each lone
  surrogate unit, one replacement for one unit: the output is the accumulator followed,
  position by position, by the replacement bytes for a lone surrogate (an unpaired lead
  or an unpaired trail, each on its own), the four bytes of the pair at a paired lead,
  nothing at the paired trail, and the unit's own encoding for every other unit.\<close>

theorem C5_replacement_mode_by_position:
  "convertUTF16ToUTF8WithReplacements out cs =
     out @ concat (map (replacementBytesAt cs) [0 ..< length cs])"
  by (rule replacements_by_position)

theorem C5_witness:
  "loneSurrogateAt [0xD83D, 0xD83D, 0xDE39, 0xDE39, 0x62] 0 \<and>
   pairedLeadAt [0xD83D, 0xD83D, 0xDE39, 0xDE39, 0x62] 1 \<and>
   pairedTrailAt [0xD83D, 0xD83D, 0xDE39, 0xDE39, 0x62] 2 \<and>
   loneSurrogateAt [0xD83D, 0xD83D, 0xDE39, 0xDE39, 0x62] 3 \<and>
   convertUTF16ToUTF8WithReplacements [0x61] [0xD83D, 0xD83D, 0xDE39, 0xDE39, 0x62] =
     [0x61, 0xEF, 0xBF, 0xBD, 0xF0, 0x9F, 0x98, 0xB9, 0xEF, 0xBF, 0xBD, 0x62]"
  using C5_replacement_mode_by_position [of "[0x61]" "[0xD83D, 0xD83D, 0xDE39, 0xDE39, 0x62]"]
  by (simp add: loneSurrogateAt_def pairedLeadAt_def pairedTrailAt_def utf8_eval)

section \<open>The ASCII classifier against the naive scan\<close>

lemma byte_high_bit: "(b :: 8 word) AND 0x80 = 0 \<longleftrightarrow> b \<le> 0x7F"
proof -
  have lt: "unat b < 256" using unsigned_less[of b] by simp
  have "b AND 2 ^ 7 = 0 \<longleftrightarrow> \<not> bit b 7" by (rule and_exp_eq_0_iff_not_bit)
  also have "\<dots> \<longleftrightarrow> \<not> bit (unat b) 7" by (simp add: bit_unsigned_iff)
  also have "\<dots> \<longleftrightarrow> \<not> odd (unat b div 128)" by (simp add: bit_iff_odd)
  also have "\<dots> \<longleftrightarrow> unat b < 128"
  proof
    assume e: "\<not> odd (unat b div 128)"
    have "unat b div 128 < 2" using lt by simp
    then have "unat b div 128 = 0" using e by (cases "unat b div 128") auto
    then show "unat b < 128" by simp
  next
    assume "unat b < 128"
    then show "\<not> odd (unat b div 128)" by simp
  qed
  also have "\<dots> \<longleftrightarrow> b \<le> 0x7F" by (auto simp add: word_le_nat_alt)
  finally show ?thesis by simp
qed

lemma or_high: "((a::8 word) OR b) AND 0x80 = 0 \<longleftrightarrow> a AND 0x80 = 0 \<and> b AND 0x80 = 0"
  by (simp add: bit.conj_disj_distrib2 or_eq_0_iff)

lemma and_split_zero:
  assumes "(a::nat) < 256" "b < 256"
  shows "(a + 256 * x) AND (b + 256 * y) = 0 \<longleftrightarrow> a AND b = 0 \<and> x AND y = 0"
proof -
  define z where "z = (a + 256 * x) AND (b + 256 * y)"
  have ta: "take_bit 8 (a + 256 * x) = a" and tb: "take_bit 8 (b + 256 * y) = b"
    using assms by (simp_all add: take_bit_eq_mod)
  have da: "drop_bit 8 (a + 256 * x) = x" and db: "drop_bit 8 (b + 256 * y) = y"
    using assms by (simp_all add: drop_bit_eq_div)
  have t: "take_bit 8 z = a AND b"
    unfolding z_def take_bit_and ta tb by (rule refl)
  have d: "drop_bit 8 z = x AND y"
    unfolding z_def drop_bit_and da db by (rule refl)
  have "z = 0 \<longleftrightarrow> take_bit 8 z = 0 \<and> drop_bit 8 z = 0"
    using bits_ident[of 8 z] by (auto simp add: push_bit_eq_mult)
  then show ?thesis using t d unfolding z_def by simp
qed

lemma unat_and_128: "unat (b :: 8 word) AND 128 = 0 \<longleftrightarrow> b AND 0x80 = 0"
proof -
  have "unat (b AND 0x80) = unat b AND 128" by (simp add: unsigned_and_eq)
  then show ?thesis by (metis unsigned_eq_0_iff)
qed

lemma orBytes_high:
  "orBytes m bs AND 0x80 = 0 \<longleftrightarrow> m AND 0x80 = 0 \<and> list_all (\<lambda>b. b \<le> 0x7F) bs"
proof (induction bs arbitrary: m)
  case Nil
  show ?case by simp
next
  case (Cons b bs)
  show ?case using Cons.IH[of "m OR b"] or_high[of m b] byte_high_bit[of b] by auto
qed

lemma fallback_iff: "isAllASCII_fallback bs \<longleftrightarrow> list_all (\<lambda>b. b \<le> 0x7F) bs"
  by (induction bs) (auto simp add: not_le)

lemma chunk_test:
  "loadChunk bs AND highBits (length bs) = 0 \<longleftrightarrow> list_all (\<lambda>b. b \<le> 0x7F) bs"
proof (induction bs)
  case Nil
  show ?case by simp
next
  case (Cons b bs)
  have lt: "unat b < 256" using unsigned_less[of b] by simp
  have "loadChunk (b # bs) AND highBits (length (b # bs)) = 0
      \<longleftrightarrow> unat b AND 128 = 0 \<and> loadChunk bs AND highBits (length bs) = 0"
    using and_split_zero[OF lt, of 128 "loadChunk bs" "highBits (length bs)"] by simp
  then show ?case using Cons.IH unat_and_128[of b] byte_high_bit[of b] by simp
qed

lemma scanChunks_sound:
  "(scanChunks w bs = None \<longrightarrow> \<not> list_all (\<lambda>b. b \<le> 0x7F) bs) \<and>
   (\<forall>rest. scanChunks w bs = Some rest \<longrightarrow>
      (list_all (\<lambda>b. b \<le> 0x7F) bs \<longleftrightarrow> list_all (\<lambda>b. b \<le> 0x7F) rest))"
proof (induction w bs rule: scanChunks.induct)
  case (1 w bytes)
  show ?case
  proof (cases "0 < w \<and> w \<le> length bytes")
    case False
    then have "scanChunks w bytes = Some bytes"
      by (subst scanChunks.simps) auto
    then show ?thesis by simp
  next
    case True
    have len: "length (take w bytes) = w" using True by simp
    have split: "list_all (\<lambda>b. b \<le> 0x7F) bytes \<longleftrightarrow>
        list_all (\<lambda>b. b \<le> 0x7F) (take w bytes) \<and> list_all (\<lambda>b. b \<le> 0x7F) (drop w bytes)"
      using list_all_append[of "\<lambda>b. b \<le> 0x7F" "take w bytes" "drop w bytes"] by simp
    have ct: "loadChunk (take w bytes) AND highBits w = 0 \<longleftrightarrow> list_all (\<lambda>b. b \<le> 0x7F) (take w bytes)"
      using chunk_test[of "take w bytes"] len by simp
    show ?thesis
    proof (cases "loadChunk (take w bytes) AND highBits w = 0")
      case z: True
      have "scanChunks w bytes = scanChunks w (drop w bytes)"
        using True z by (subst scanChunks.simps) simp
      then show ?thesis using "1.IH"[OF True] z ct split by simp
    next
      case nz: False
      have "scanChunks w bytes = None"
        using True nz by (subst scanChunks.simps) simp
      then show ?thesis using nz ct split by simp
    qed
  qed
qed

lemma isAllASCII_iff: "isAllASCII w addr bytes \<longleftrightarrow> list_all (\<lambda>b. b \<le> 0x7F) bytes"
proof (cases "0 < w \<and> w \<le> length bytes")
  case False
  then have "isAllASCII w addr bytes = (orBytes 0 bytes AND 0x80 = 0)"
    unfolding isAllASCII_def by (simp only: if_False)
  then show ?thesis by (simp add: orBytes_high)
next
  case True
  define n where "n = (w - addr mod w) mod w"
  have split: "list_all (\<lambda>b. b \<le> 0x7F) bytes \<longleftrightarrow>
      list_all (\<lambda>b. b \<le> 0x7F) (take n bytes) \<and> list_all (\<lambda>b. b \<le> 0x7F) (drop n bytes)"
    using list_all_append[of "\<lambda>b. b \<le> 0x7F" "take n bytes" "drop n bytes"] by simp
  show ?thesis
  proof (cases "scanChunks w (drop n bytes)")
    case None
    then show ?thesis
      using True scanChunks_sound[of w "drop n bytes"] split
      by (simp add: isAllASCII_def n_def[symmetric] Let_def)
  next
    case (Some rest)
    then show ?thesis
      using True scanChunks_sound[of w "drop n bytes"] split
      by (simp add: isAllASCII_def n_def[symmetric] Let_def orBytes_high)
  qed
qed

text \<open>C8. \<^verbatim>\<open>isAllASCII\<close> over a half-open byte range is true if and only if every
  byte of the range is at most \<open>0x7F\<close>; it is true of the empty range; and for every
  range, whatever its length, the address of its first byte and the chunk width (so also
  for every sub-range of an array, wherever it starts and ends against the chunk
  boundaries), its result is that of the naive byte-by-byte scan.\<close>

theorem C8_isAllASCII_is_naive_scan:
  "isAllASCII w addr bytes = isAllASCII_fallback bytes \<and>
   (isAllASCII w addr bytes \<longleftrightarrow> list_all (\<lambda>b. b \<le> 0x7F) bytes) \<and>
   isAllASCII w addr [] \<and>
   isAllASCII w (base + start) (subrange arr start end') =
     isAllASCII_fallback (subrange arr start end')"
  by (simp add: isAllASCII_iff fallback_iff)

theorem C8_witness:
  "isAllASCII 4 0 [32, 23, 18] \<and> \<not> isAllASCII 4 0 [234, 1, 0] \<and> isAllASCII 4 2 [] \<and>
   isAllASCII 4 1 asciiArr \<and> \<not> isAllASCII 4 1 partialAsciiArr \<and>
   \<not> isAllASCII 4 1 noAsciiArr \<and>
   \<not> isAllASCII 4 (1 + 3) (subrange partialAsciiArr 3 9) \<and>
   isAllASCII 4 (1 + 5) (subrange partialAsciiArr 5 10)"
  using C8_isAllASCII_is_naive_scan [of 4 0 "[32, 23, 18]" 1 3 partialAsciiArr 9]
    C8_isAllASCII_is_naive_scan [of 4 0 "[234, 1, 0]" 1 5 partialAsciiArr 10]
    C8_isAllASCII_is_naive_scan [of 4 1 asciiArr]
    C8_isAllASCII_is_naive_scan [of 4 1 partialAsciiArr]
    C8_isAllASCII_is_naive_scan [of 4 1 noAsciiArr]
    C8_isAllASCII_is_naive_scan [of 4 2 "[]"]
  by (simp add: asciiArr_def partialAsciiArr_def noAsciiArr_def subrange_def)

lemma subrange_all:
  assumes "list_all P arr"
  shows "list_all P (subrange arr start end')"
proof -
  have "set (subrange arr start end') \<subseteq> set arr"
    unfolding subrange_def using set_take_subset set_drop_subset by fastforce
  then show ?thesis using assms by (auto simp add: list_all_iff)
qed

lemma subrange_none:
  assumes "list_all (\<lambda>b. \<not> P b) arr" "start \<le> end'" "end' \<le> length arr"
  shows "list_all P (subrange arr start end') \<longleftrightarrow> start = end'"
proof (cases "start = end'")
  case True
  then show ?thesis by (simp add: subrange_def)
next
  case False
  then have ne: "subrange arr start end' \<noteq> []"
    using assms(2,3) by (simp add: subrange_def)
  then obtain b where b: "b \<in> set (subrange arr start end')"
    by (cases "subrange arr start end'") auto
  have "set (subrange arr start end') \<subseteq> set arr"
    unfolding subrange_def using set_take_subset set_drop_subset by fastforce
  then have "\<not> P b" using b assms(1) by (auto simp add: list_all_iff)
  then show ?thesis using b False by (auto simp add: list_all_iff)
qed

text \<open>The torture loops of \<^verbatim>\<open>IsAllASCIITest\<close>: every sub-range of \<open>asciiArr\<close> is
  ASCII, and of the sub-ranges of \<open>noAsciiArr\<close> only the empty ones are.\<close>

lemma IsAllASCIITest_asciiArr:
  "isAllASCII w (base + start) (subrange asciiArr start end')"
proof -
  have "list_all (\<lambda>b. b \<le> 0x7F) asciiArr" by (simp add: asciiArr_def)
  then show ?thesis using subrange_all by (simp add: isAllASCII_iff)
qed

lemma IsAllASCIITest_noAsciiArr:
  assumes "start \<le> end'" "end' \<le> 10"
  shows "isAllASCII w (base + start) (subrange noAsciiArr start end') \<longleftrightarrow> start = end'"
proof -
  have "list_all (\<lambda>b. \<not> b \<le> 0x7F) noAsciiArr" by (simp add: noAsciiArr_def)
  moreover have "end' \<le> length noAsciiArr" using assms(2) by (simp add: noAsciiArr_def)
  ultimately show ?thesis using subrange_none[OF _ assms(1)] by (simp add: isAllASCII_iff)
qed

section \<open>DataView: accessors, typed access and construction\<close>

lemma sizeofT_pos: "0 < sizeofT T"
  by (cases T) simp_all

lemma sizeofT_le8: "sizeofT T \<le> 8"
  by (cases T) simp_all

lemma exampleEnv_sel:
  "toIndex exampleEnv runtime UndefinedValue = (Inr 0, runtime)"
  "toIndex exampleEnv runtime (NumberValue n) =
     (if 0 \<le> n \<and> n \<le> 2 ^ 53 - 1 then (Inr (nat n), runtime)
      else (Inl (RangeError ''index out of range''), runtime))"
  "toIndex exampleEnv runtime (OtherObject a) = (Inr 8, detach a runtime)"
  "toNumber_RJS exampleEnv runtime (NumberValue n) = (Inr n, runtime)"
  "toNumber_RJS exampleEnv runtime (OtherObject a) = (Inr 8, detach a runtime)"
  "toNumber_RJS exampleEnv runtime UndefinedValue =
     (Inl (TypeError ''cannot convert to a number''), runtime)"
  "toBoolean exampleEnv (BoolValue b) = b"
  "toBoolean exampleEnv UndefinedValue = False"
  "toDestType exampleEnv T n = nat (n mod 2 ^ (8 * sizeofT T))"
  "SafeNumericEncoder exampleEnv T v = int v"
  "encodeNumberValue exampleEnv k = int k"
  by (simp_all add: exampleEnv_def)

lemmas example_eval =
  exampleEnv_sel exampleRuntime_def exampleView_def emptyView_def methodCall_def
  constructorCall_def getArg_def dyncastThis_def dyncastArg_def isUndefined_def
  raiseTypeError_def raiseRangeError_def detach_def bufferSize_def

text \<open>C10. The \<open>buffer\<close>, \<open>byteLength\<close> and \<open>byteOffset\<close> accessors do not look at the
  buffer's attached flag: on a view, in every state of the store (so also when the
  buffer has been detached), each succeeds, leaves the state as it is and returns the
  field stored at construction. They fail only when the receiver is not a DataView, with
  a TypeError that names the accessor.\<close>

theorem C10_accessors_ignore_attached:
  "(dyncastThis args = Some self \<longrightarrow>
      dataViewPrototypeBuffer env runtime args =
        (Inr (ArrayBufferObject (dv_buffer self)), runtime) \<and>
      dataViewPrototypeByteLength env runtime args =
        (Inr (NumberValue (encodeNumberValue env (dv_byteLength self))), runtime) \<and>
      dataViewPrototypeByteOffset env runtime args =
        (Inr (NumberValue (encodeNumberValue env (dv_byteOffset self))), runtime)) \<and>
   (dyncastThis args = None \<longrightarrow>
      dataViewPrototypeBuffer env runtime args =
        (Inl (TypeError ''DataView.prototype.buffer called on a non DataView object''),
         runtime) \<and>
      dataViewPrototypeByteLength env runtime args =
        (Inl (TypeError ''DataView.prototype.byteLength called on a non DataView object''),
         runtime) \<and>
      dataViewPrototypeByteOffset env runtime args =
        (Inl (TypeError ''DataView.prototype.byteOffset called on a non DataView object''),
         runtime))"
  by (simp add: dataViewPrototypeBuffer_def dataViewPrototypeByteLength_def
      dataViewPrototypeByteOffset_def raiseTypeError_def)

text \<open>An instance: a view is constructed, its buffer detached, and the accessors
  still answer.\<close>

theorem C10_witness:
  "dataViewConstructor exampleEnv exampleRuntime
     (constructorCall [ArrayBufferObject 0, NumberValue 2, NumberValue 4]) =
     (Inr (DataViewObject exampleView), exampleRuntime) \<and>
   \<not> attached (detach 0 exampleRuntime 0) \<and>
   dataViewPrototypeBuffer exampleEnv (detach 0 exampleRuntime)
     (methodCall (DataViewObject exampleView) []) =
     (Inr (ArrayBufferObject 0), detach 0 exampleRuntime) \<and>
   dataViewPrototypeByteLength exampleEnv (detach 0 exampleRuntime)
     (methodCall (DataViewObject exampleView) []) =
     (Inr (NumberValue 4), detach 0 exampleRuntime) \<and>
   dataViewPrototypeByteOffset exampleEnv (detach 0 exampleRuntime)
     (methodCall (DataViewObject exampleView) []) =
     (Inr (NumberValue 2), detach 0 exampleRuntime) \<and>
   dataViewPrototypeByteLength exampleEnv exampleRuntime
     (methodCall (ArrayBufferObject 0) []) =
     (Inl (TypeError ''DataView.prototype.byteLength called on a non DataView object''),
      exampleRuntime)"
proof -
  have c: "dataViewConstructor exampleEnv exampleRuntime
     (constructorCall [ArrayBufferObject 0, NumberValue 2, NumberValue 4]) =
     (Inr (DataViewObject exampleView), exampleRuntime)"
    by (simp add: dataViewConstructor_def example_eval)
  have t: "dyncastThis (methodCall (DataViewObject exampleView) [] :: int NativeArgs) = Some exampleView"
    by (simp add: example_eval)
  have n: "dyncastThis (methodCall (ArrayBufferObject 0) [] :: int NativeArgs) = None"
    by (simp add: example_eval)
  show ?thesis
    using c t n
      C10_accessors_ignore_attached [of "methodCall (DataViewObject exampleView) []"
        exampleView exampleEnv "detach 0 exampleRuntime"]
      C10_accessors_ignore_attached [of "methodCall (ArrayBufferObject 0) []"
        exampleView exampleEnv exampleRuntime]
    by (simp add: exampleEnv_sel exampleView_def detach_def exampleRuntime_def)
qed

text \<open>C4. In \<^verbatim>\<open>get<T>\<close> and \<^verbatim>\<open>set<T>\<close> the attached flag of the buffer is read in the
  state the argument coercions leave: after \<open>toIndex\<close> (and \<open>toBoolean\<close>, which has no
  effect), and for \<^verbatim>\<open>set<T>\<close> after \<open>toNumber_RJS\<close> as well. If the buffer is detached in
  that state, whatever the arguments are, the call fails with the TypeError of a detached
  ArrayBuffer and returns that state as it is: no byte is read or written.\<close>

theorem C4_detached_after_coercions:
  "(dyncastThis args = Some self \<and>
    toIndex env runtime (getArg args 0) = (Inr n, runtime1) \<and>
    \<not> attached (runtime1 (dv_buffer self)) \<longrightarrow>
      dataViewPrototypeGet env T runtime args =
        Some (Inl (TypeError
          ''DataView.prototype.get<Type>() called on a detached ArrayBuffer''), runtime1)) \<and>
   (dyncastThis args = Some self \<and>
    toIndex env runtime (getArg args 0) = (Inr n, runtime1) \<and>
    toNumber_RJS env runtime1 (getArg args 1) = (Inr number, runtime2) \<and>
    \<not> attached (runtime2 (dv_buffer self)) \<longrightarrow>
      dataViewPrototypeSet env T runtime args =
        Some (Inl (TypeError
          ''DataView.prototype.set<Type> called on a detached ArrayBuffer''), runtime2))"
  by (simp add: dataViewPrototypeGet_def dataViewPrototypeSet_def raiseTypeError_def)

text \<open>An instance: the buffer is attached when the call starts, and the coercion of an
  argument detaches it.\<close>

theorem C4_witness:
  "attached (exampleRuntime 0) \<and>
   dataViewPrototypeGet exampleEnv Uint8 exampleRuntime
     (methodCall (DataViewObject exampleView) [OtherObject 0]) =
     Some (Inl (TypeError
       ''DataView.prototype.get<Type>() called on a detached ArrayBuffer''),
       detach 0 exampleRuntime) \<and>
   dataViewPrototypeSet exampleEnv Uint8 exampleRuntime
     (methodCall (DataViewObject exampleView) [NumberValue 0, OtherObject 0]) =
     Some (Inl (TypeError
       ''DataView.prototype.set<Type> called on a detached ArrayBuffer''),
       detach 0 exampleRuntime)"
proof -
  have g: "dataViewPrototypeGet exampleEnv Uint8 exampleRuntime
     (methodCall (DataViewObject exampleView) [OtherObject 0]) =
     Some (Inl (TypeError
       ''DataView.prototype.get<Type>() called on a detached ArrayBuffer''),
       detach 0 exampleRuntime)"
    using C4_detached_after_coercions [where
        args = "methodCall (DataViewObject exampleView) [OtherObject 0]" and
        self = exampleView and env = exampleEnv and runtime = exampleRuntime and n = 8 and
        ?runtime1.0 = "detach 0 exampleRuntime" and T = Uint8]
    by (simp add: example_eval)
  have s: "dataViewPrototypeSet exampleEnv Uint8 exampleRuntime
     (methodCall (DataViewObject exampleView) [NumberValue 0, OtherObject 0]) =
     Some (Inl (TypeError
       ''DataView.prototype.set<Type> called on a detached ArrayBuffer''),
       detach 0 exampleRuntime)"
    using C4_detached_after_coercions [where
        args = "methodCall (DataViewObject exampleView) [NumberValue 0, OtherObject 0]" and
        self = exampleView and env = exampleEnv and runtime = exampleRuntime and n = 0 and
        ?runtime1.0 = exampleRuntime and number = 8 and
        ?runtime2.0 = "detach 0 exampleRuntime" and T = Uint8]
    by (simp add: example_eval)
  show ?thesis using g s by (simp add: exampleRuntime_def)
qed

lemma get_in_bounds:
  assumes "attached (runtime (dv_buffer self))" "viewInBuffer runtime self"
    "n + sizeofT T \<le> dv_byteLength self"
  shows "\<exists>v. JSDataView_get T runtime self n le = Some v"
  using assms by (simp add: JSDataView_get_def viewInBuffer_def Let_def)

lemma set_in_bounds:
  assumes "attached (runtime (dv_buffer self))" "viewInBuffer runtime self"
    "n + sizeofT T \<le> dv_byteLength self"
  shows "\<exists>runtime'. JSDataView_set T runtime self n v le = Some runtime'"
  using assms by (simp add: JSDataView_set_def viewInBuffer_def Let_def)

lemma no_wrap:
  assumes "viewInBuffer runtime self" "n \<le> dv_byteLength self + 1"
  shows "(n + sizeofT T) mod 2 ^ 64 = n + sizeofT T"
proof -
  have "dv_byteLength self < 2 ^ 32" using assms(1) by (simp add: viewInBuffer_def)
  then have "n + sizeofT T < 2 ^ 32 + 1 + 8" using assms(2) sizeofT_le8[of T] by linarith
  then have "n + sizeofT T < (2 :: nat) ^ 64" by simp
  then show ?thesis by simp
qed

text \<open>C6. For every element type \<open>T\<close> and every view with \<open>sizeof(T) \<le> byteLength\<close>
  whose window lies in an attached buffer: \<^verbatim>\<open>get<T>\<close> and \<^verbatim>\<open>set<T>\<close> at the offset
  \<open>byteLength - sizeof(T)\<close> pass the bounds check and succeed, and at
  \<open>byteLength - sizeof(T) + 1\<close> fail with the RangeError of an access out of bounds.\<close>

theorem C6_bounds_edge:
  assumes "dyncastThis args = Some self" "sizeofT T \<le> dv_byteLength self"
  shows
   "(toIndex env runtime (getArg args 0) = (Inr (dv_byteLength self - sizeofT T), runtime1) \<and>
     attached (runtime1 (dv_buffer self)) \<and> viewInBuffer runtime1 self \<longrightarrow>
       (\<exists>v. dataViewPrototypeGet env T runtime args = Some (Inr (NumberValue v), runtime1))) \<and>
    (toIndex env runtime (getArg args 0) =
       (Inr (dv_byteLength self - sizeofT T + 1), runtime1) \<and>
     attached (runtime1 (dv_buffer self)) \<and> viewInBuffer runtime1 self \<longrightarrow>
       dataViewPrototypeGet env T runtime args =
         Some (Inl (RangeError
           ''DataView.prototype.get<Type>(): Cannot read that many bytes''), runtime1)) \<and>
    (toIndex env runtime (getArg args 0) = (Inr (dv_byteLength self - sizeofT T), runtime1) \<and>
     toNumber_RJS env runtime1 (getArg args 1) = (Inr number, runtime2) \<and>
     attached (runtime2 (dv_buffer self)) \<and> viewInBuffer runtime2 self \<longrightarrow>
       (\<exists>runtime3. dataViewPrototypeSet env T runtime args =
          Some (Inr UndefinedValue, runtime3))) \<and>
    (toIndex env runtime (getArg args 0) =
       (Inr (dv_byteLength self - sizeofT T + 1), runtime1) \<and>
     toNumber_RJS env runtime1 (getArg args 1) = (Inr number, runtime2) \<and>
     attached (runtime2 (dv_buffer self)) \<and> viewInBuffer runtime2 self \<longrightarrow>
       dataViewPrototypeSet env T runtime args =
         Some (Inl (RangeError
           ''DataView.prototype.set<Type>(): Cannot write that many bytes''), runtime2))"
proof -
  let ?ok = "dv_byteLength self - sizeofT T"
  have fit: "?ok + sizeofT T \<le> dv_byteLength self" using assms(2) by simp
  have over: "?ok + 1 + sizeofT T > dv_byteLength self" using assms(2) by simp
  have g1: "\<exists>v. dataViewPrototypeGet env T runtime args = Some (Inr (NumberValue v), runtime1)"
    if h: "toIndex env runtime (getArg args 0) = (Inr ?ok, runtime1)"
      "attached (runtime1 (dv_buffer self))" "viewInBuffer runtime1 self"
  proof -
    obtain v where v: "JSDataView_get T runtime1 self ?ok (toBoolean env (getArg args 1)) = Some v"
      using get_in_bounds[OF h(2,3) fit] by blast
    have "(?ok + sizeofT T) mod 2 ^ 64 = ?ok + sizeofT T"
      using no_wrap[OF h(3), of ?ok T] by simp
    then show ?thesis
      using assms(1) h(1,2) v fit by (simp add: dataViewPrototypeGet_def Let_def)
  qed
  have g2: "dataViewPrototypeGet env T runtime args =
         Some (Inl (RangeError
           ''DataView.prototype.get<Type>(): Cannot read that many bytes''), runtime1)"
    if h: "toIndex env runtime (getArg args 0) = (Inr (?ok + 1), runtime1)"
      "attached (runtime1 (dv_buffer self))" "viewInBuffer runtime1 self"
  proof -
    have "(?ok + 1 + sizeofT T) mod 2 ^ 64 = ?ok + 1 + sizeofT T"
      using no_wrap[OF h(3), of "?ok + 1" T] by simp
    then show ?thesis
      using assms(1) h(1,2) over
      by (simp add: dataViewPrototypeGet_def Let_def raiseRangeError_def)
  qed
  have s1: "\<exists>runtime3. dataViewPrototypeSet env T runtime args =
          Some (Inr UndefinedValue, runtime3)"
    if h: "toIndex env runtime (getArg args 0) = (Inr ?ok, runtime1)"
      "toNumber_RJS env runtime1 (getArg args 1) = (Inr number, runtime2)"
      "attached (runtime2 (dv_buffer self))" "viewInBuffer runtime2 self"
  proof -
    obtain r3 where r3: "JSDataView_set T runtime2 self ?ok (toDestType env T number)
        (toBoolean env (getArg args 2)) = Some r3"
      using set_in_bounds[OF h(3,4) fit] by blast
    have "(?ok + sizeofT T) mod 2 ^ 64 = ?ok + sizeofT T"
      using no_wrap[OF h(4), of ?ok T] by simp
    then show ?thesis
      using assms(1) h(1,2,3) r3 fit by (simp add: dataViewPrototypeSet_def Let_def)
  qed
  have s2: "dataViewPrototypeSet env T runtime args =
         Some (Inl (RangeError
           ''DataView.prototype.set<Type>(): Cannot write that many bytes''), runtime2)"
    if h: "toIndex env runtime (getArg args 0) = (Inr (?ok + 1), runtime1)"
      "toNumber_RJS env runtime1 (getArg args 1) = (Inr number, runtime2)"
      "attached (runtime2 (dv_buffer self))" "viewInBuffer runtime2 self"
  proof -
    have "(?ok + 1 + sizeofT T) mod 2 ^ 64 = ?ok + 1 + sizeofT T"
      using no_wrap[OF h(4), of "?ok + 1" T] by simp
    then show ?thesis
      using assms(1) h(1,2,3) over
      by (simp add: dataViewPrototypeSet_def Let_def raiseRangeError_def)
  qed
  show ?thesis using g1 g2 s1 s2 by blast
qed

text \<open>An instance: 16-bit accesses at offsets 2 and 3 of a view of four bytes.\<close>

theorem C6_witness:
  "dyncastThis (methodCall (DataViewObject exampleView) [NumberValue 2] :: int NativeArgs)
     = Some exampleView \<and>
   sizeofT Uint16 \<le> dv_byteLength exampleView \<and>
   attached (exampleRuntime (dv_buffer exampleView)) \<and>
   viewInBuffer exampleRuntime exampleView \<and>
   dataViewPrototypeGet exampleEnv Uint16 exampleRuntime
     (methodCall (DataViewObject exampleView) [NumberValue 2]) =
     Some (Inr (NumberValue 0x0506), exampleRuntime) \<and>
   dataViewPrototypeGet exampleEnv Uint16 exampleRuntime
     (methodCall (DataViewObject exampleView) [NumberValue 3]) =
     Some (Inl (RangeError
       ''DataView.prototype.get<Type>(): Cannot read that many bytes''), exampleRuntime) \<and>
   (\<exists>runtime3. dataViewPrototypeSet exampleEnv Uint16 exampleRuntime
     (methodCall (DataViewObject exampleView) [NumberValue 2, NumberValue 0xABCD]) =
     Some (Inr UndefinedValue, runtime3)) \<and>
   dataViewPrototypeSet exampleEnv Uint16 exampleRuntime
     (methodCall (DataViewObject exampleView) [NumberValue 3, NumberValue 0xABCD]) =
     Some (Inl (RangeError
       ''DataView.prototype.set<Type>(): Cannot write that many bytes''), exampleRuntime)"
proof -
  have d: "dyncastThis (methodCall (DataViewObject exampleView) as :: int NativeArgs)
     = Some exampleView" for as
    by (simp add: example_eval)
  have sz: "sizeofT Uint16 \<le> dv_byteLength exampleView" by (simp add: exampleView_def)
  have at: "attached (exampleRuntime (dv_buffer exampleView))"
    by (simp add: exampleRuntime_def)
  have vb: "viewInBuffer exampleRuntime exampleView"
    by (simp add: viewInBuffer_def example_eval)
  have v: "dataViewPrototypeGet exampleEnv Uint16 exampleRuntime
     (methodCall (DataViewObject exampleView) [NumberValue 2]) =
     Some (Inr (NumberValue 0x0506), exampleRuntime)"
    by (simp add: dataViewPrototypeGet_def JSDataView_get_def example_eval Let_def)
  note a = C6_bounds_edge [OF d sz, where env = exampleEnv and runtime = exampleRuntime and
      ?runtime1.0 = exampleRuntime and ?runtime2.0 = exampleRuntime and number = "0xABCD",
      of "[NumberValue 3]"]
  note b = C6_bounds_edge [OF d sz, where env = exampleEnv and runtime = exampleRuntime and
      ?runtime1.0 = exampleRuntime and ?runtime2.0 = exampleRuntime and number = "0xABCD",
      of "[NumberValue 2, NumberValue 0xABCD]"]
  note c = C6_bounds_edge [OF d sz, where env = exampleEnv and runtime = exampleRuntime and
      ?runtime1.0 = exampleRuntime and ?runtime2.0 = exampleRuntime and number = "0xABCD",
      of "[NumberValue 3, NumberValue 0xABCD]"]
  have g3: "dataViewPrototypeGet exampleEnv Uint16 exampleRuntime
     (methodCall (DataViewObject exampleView) [NumberValue 3]) =
     Some (Inl (RangeError
       ''DataView.prototype.get<Type>(): Cannot read that many bytes''), exampleRuntime)"
    using a at vb by (simp add: example_eval)
  have s2: "\<exists>runtime3. dataViewPrototypeSet exampleEnv Uint16 exampleRuntime
     (methodCall (DataViewObject exampleView) [NumberValue 2, NumberValue 0xABCD]) =
     Some (Inr UndefinedValue, runtime3)"
    using b at vb by (simp add: example_eval)
  have s3: "dataViewPrototypeSet exampleEnv Uint16 exampleRuntime
     (methodCall (DataViewObject exampleView) [NumberValue 3, NumberValue 0xABCD]) =
     Some (Inl (RangeError
       ''DataView.prototype.set<Type>(): Cannot write that many bytes''), exampleRuntime)"
    using c at vb by (simp add: example_eval)
  show ?thesis using d sz at vb v g3 s2 s3 by blast
qed

text \<open>C9. Constructing a DataView with the offset equal to the buffer's byte length and
  no length argument succeeds and gives a view of byte length 0. On a view of byte length
  0 every \<^verbatim>\<open>get<T>\<close> and \<^verbatim>\<open>set<T>\<close>, for every \<open>T\<close>, fails: with the RangeError of an
  access out of bounds once the argument coercions have succeeded on an attached buffer
  (an index that \<open>toIndex\<close> returns is at most \<open>2^53 - 1\<close>), and with the error of the
  earlier step otherwise.\<close>

theorem C9_empty_view_at_end:
  "(isConstructorCall cargs \<and> dyncastArg cargs 0 = Some buffer \<and>
    toIndex env runtime (getArg cargs 1) = (Inr (bufferSize (runtime1 buffer)), runtime1) \<and>
    isUndefined (getArg cargs 2) \<longrightarrow>
      dataViewConstructor env runtime cargs =
        (Inr (DataViewObject
          \<lparr>dv_buffer = buffer, dv_byteOffset = bufferSize (runtime1 buffer),
           dv_byteLength = 0\<rparr>), runtime1)) \<and>
   (dyncastThis args = Some self \<and> dv_byteLength self = 0 \<and>
    toIndex env later (getArg args 0) = (Inr n, later1) \<and> n \<le> 2 ^ 53 - 1 \<and>
    attached (later1 (dv_buffer self)) \<longrightarrow>
      dataViewPrototypeGet env T later args =
        Some (Inl (RangeError
          ''DataView.prototype.get<Type>(): Cannot read that many bytes''), later1)) \<and>
   (dyncastThis args = Some self \<and> dv_byteLength self = 0 \<and>
    toIndex env later (getArg args 0) = (Inr n, later1) \<and> n \<le> 2 ^ 53 - 1 \<and>
    toNumber_RJS env later1 (getArg args 1) = (Inr number, later2) \<and>
    attached (later2 (dv_buffer self)) \<longrightarrow>
      dataViewPrototypeSet env T later args =
        Some (Inl (RangeError
          ''DataView.prototype.set<Type>(): Cannot write that many bytes''), later2)) \<and>
   (dyncastThis args = Some self \<and> dv_byteLength self = 0 \<and>
    (\<forall>k. fst (toIndex env later (getArg args 0)) = Inr k \<longrightarrow> k \<le> 2 ^ 53 - 1) \<longrightarrow>
      (\<exists>e runtime'. dataViewPrototypeGet env T later args = Some (Inl e, runtime')) \<and>
      (\<exists>e runtime'. dataViewPrototypeSet env T later args = Some (Inl e, runtime')))"
proof -
  have wrap: "0 < (k + sizeofT T) mod 2 ^ 64" if "k \<le> 2 ^ 53 - 1" for k :: nat
  proof -
    have "k + sizeofT T < 2 ^ 53 + 8" using that sizeofT_le8[of T] by simp
    then have "k + sizeofT T < (2 :: nat) ^ 64" by simp
    then have "(k + sizeofT T) mod 2 ^ 64 = k + sizeofT T" by simp
    then show ?thesis using sizeofT_pos[of T] by simp
  qed
  have c: "dataViewConstructor env runtime cargs =
        (Inr (DataViewObject
          \<lparr>dv_buffer = buffer, dv_byteOffset = bufferSize (runtime1 buffer),
           dv_byteLength = 0\<rparr>), runtime1)"
    if "isConstructorCall cargs" "dyncastArg cargs 0 = Some buffer"
      "toIndex env runtime (getArg cargs 1) = (Inr (bufferSize (runtime1 buffer)), runtime1)"
      "isUndefined (getArg cargs 2)"
    using that by (simp add: dataViewConstructor_def Let_def)
  have g: "dataViewPrototypeGet env T later args =
        Some (Inl (RangeError
          ''DataView.prototype.get<Type>(): Cannot read that many bytes''), later1)"
    if "dyncastThis args = Some self" "dv_byteLength self = 0"
      "toIndex env later (getArg args 0) = (Inr n, later1)" "n \<le> 2 ^ 53 - 1"
      "attached (later1 (dv_buffer self))"
    using that wrap[of n]
    by (simp add: dataViewPrototypeGet_def Let_def raiseRangeError_def)
  have s: "dataViewPrototypeSet env T later args =
        Some (Inl (RangeError
          ''DataView.prototype.set<Type>(): Cannot write that many bytes''), later2)"
    if "dyncastThis args = Some self" "dv_byteLength self = 0"
      "toIndex env later (getArg args 0) = (Inr n, later1)" "n \<le> 2 ^ 53 - 1"
      "toNumber_RJS env later1 (getArg args 1) = (Inr number, later2)"
      "attached (later2 (dv_buffer self))"
    using that wrap[of n]
    by (simp add: dataViewPrototypeSet_def Let_def raiseRangeError_def)
  have never: "(\<exists>e runtime'. dataViewPrototypeGet env T later args = Some (Inl e, runtime')) \<and>
      (\<exists>e runtime'. dataViewPrototypeSet env T later args = Some (Inl e, runtime'))"
    if h: "dyncastThis args = Some self" "dv_byteLength self = 0"
      "\<forall>k. fst (toIndex env later (getArg args 0)) = Inr k \<longrightarrow> k \<le> 2 ^ 53 - 1"
  proof (cases "toIndex env later (getArg args 0)")
    case (Pair r r1)
    show ?thesis
    proof (cases r)
      case (Inl e)
      then show ?thesis using h(1) Pair
        by (simp add: dataViewPrototypeGet_def dataViewPrototypeSet_def)
    next
      case (Inr k)
      then have k: "k \<le> 2 ^ 53 - 1" using h(3) Pair by simp
      have gg: "\<exists>e runtime'. dataViewPrototypeGet env T later args = Some (Inl e, runtime')"
        using h(1,2) Pair Inr wrap[OF k]
        by (simp add: dataViewPrototypeGet_def Let_def raiseRangeError_def raiseTypeError_def)
      have ss: "\<exists>e runtime'. dataViewPrototypeSet env T later args = Some (Inl e, runtime')"
      proof (cases "toNumber_RJS env r1 (getArg args 1)")
        case p2: (Pair q r2)
        show ?thesis using h(1,2) Pair Inr p2 wrap[OF k]
          by (cases q)
            (simp_all add: dataViewPrototypeSet_def Let_def raiseRangeError_def raiseTypeError_def)
      qed
      show ?thesis using gg ss by blast
    qed
  qed
  show ?thesis using c g s never by blast
qed


text \<open>An instance: the empty view at the end of a buffer of eight bytes.\<close>

theorem C9_witness:
  "dataViewConstructor exampleEnv exampleRuntime
     (constructorCall [ArrayBufferObject 0, NumberValue 8]) =
     (Inr (DataViewObject emptyView), exampleRuntime) \<and>
   dataViewPrototypeGet exampleEnv Uint8 exampleRuntime
     (methodCall (DataViewObject emptyView) [NumberValue 0]) =
     Some (Inl (RangeError
       ''DataView.prototype.get<Type>(): Cannot read that many bytes''), exampleRuntime) \<and>
   dataViewPrototypeSet exampleEnv Uint8 exampleRuntime
     (methodCall (DataViewObject emptyView) [NumberValue 0, NumberValue 7]) =
     Some (Inl (RangeError
       ''DataView.prototype.set<Type>(): Cannot write that many bytes''), exampleRuntime)"
proof -
  note t = C9_empty_view_at_end [where
      cargs = "constructorCall [ArrayBufferObject 0, NumberValue 8]" and buffer = 0 and
      env = exampleEnv and runtime = exampleRuntime and ?runtime1.0 = exampleRuntime and
      args = "methodCall (DataViewObject emptyView) [NumberValue 0, NumberValue 7]" and
      self = emptyView and later = exampleRuntime and ?later1.0 = exampleRuntime and
      ?later2.0 = exampleRuntime and n = 0 and number = 7 and T = Uint8]
  note u = C9_empty_view_at_end [where
      cargs = "constructorCall [ArrayBufferObject 0, NumberValue 8]" and buffer = 0 and
      env = exampleEnv and runtime = exampleRuntime and ?runtime1.0 = exampleRuntime and
      args = "methodCall (DataViewObject emptyView) [NumberValue 0]" and
      self = emptyView and later = exampleRuntime and ?later1.0 = exampleRuntime and
      ?later2.0 = exampleRuntime and n = 0 and number = 7 and T = Uint8]
  have c: "dataViewConstructor exampleEnv exampleRuntime
     (constructorCall [ArrayBufferObject 0, NumberValue 8]) =
     (Inr (DataViewObject emptyView), exampleRuntime)"
    using t by (simp add: example_eval)
  have g: "dataViewPrototypeGet exampleEnv Uint8 exampleRuntime
     (methodCall (DataViewObject emptyView) [NumberValue 0]) =
     Some (Inl (RangeError
       ''DataView.prototype.get<Type>(): Cannot read that many bytes''), exampleRuntime)"
    using u by (simp add: example_eval)
  have s: "dataViewPrototypeSet exampleEnv Uint8 exampleRuntime
     (methodCall (DataViewObject emptyView) [NumberValue 0, NumberValue 7]) =
     Some (Inl (RangeError
       ''DataView.prototype.set<Type>(): Cannot write that many bytes''), exampleRuntime)"
    using t by (simp add: example_eval)
  show ?thesis using c g s by blast
qed

text \<open>C3 (as amended). In DataView construction with an explicit length argument, the
  bounds check \<open>offset + viewByteLength > bufferByteLength\<close> is evaluated against the
  byte length of the buffer measured right after the offset coercion, before the length
  argument is coerced; what the length coercion does to the buffer does not enter the
  check.\<close>

theorem C3_bounds_check_uses_measured_length:
  "isConstructorCall args \<and> dyncastArg args 0 = Some buffer \<and>
   toIndex env runtime (getArg args 1) = (Inr offset, runtime1) \<and>
   offset \<le> bufferSize (runtime1 buffer) \<and>
   \<not> isUndefined (getArg args 2) \<and>
   toIndex env runtime1 (getArg args 2) = (Inr viewByteLength, runtime2) \<longrightarrow>
     dataViewConstructor env runtime args =
       (if offset + viewByteLength > bufferSize (runtime1 buffer) then
          (Inl (RangeError
            ''new DataView(buffer, [byteOffset], [byteLength]): byteOffset + byteLength must be <= the length of the buffer''),
           runtime2)
        else
          (Inr (DataViewObject
             \<lparr>dv_buffer = buffer, dv_byteOffset = offset, dv_byteLength = viewByteLength\<rparr>),
           runtime2))"
  by (simp add: dataViewConstructor_def Let_def raiseRangeError_def)

text \<open>Instances: a view that fits, one that does not, and a length argument whose
  coercion detaches the buffer.\<close>

theorem C3_witness:
  "dataViewConstructor exampleEnv exampleRuntime
     (constructorCall [ArrayBufferObject 0, NumberValue 2, NumberValue 4]) =
     (Inr (DataViewObject exampleView), exampleRuntime) \<and>
   dataViewConstructor exampleEnv exampleRuntime
     (constructorCall [ArrayBufferObject 0, NumberValue 2, NumberValue 7]) =
     (Inl (RangeError
        ''new DataView(buffer, [byteOffset], [byteLength]): byteOffset + byteLength must be <= the length of the buffer''),
      exampleRuntime) \<and>
   dataViewConstructor exampleEnv exampleRuntime
     (constructorCall [ArrayBufferObject 0, NumberValue 0, OtherObject 0]) =
     (Inr (DataViewObject \<lparr>dv_buffer = 0, dv_byteOffset = 0, dv_byteLength = 8\<rparr>),
      detach 0 exampleRuntime)"
  using
    C3_bounds_check_uses_measured_length [where
      args = "constructorCall [ArrayBufferObject 0, NumberValue 2, NumberValue 4]" and
      buffer = 0 and env = exampleEnv and runtime = exampleRuntime and offset = 2 and
      ?runtime1.0 = exampleRuntime and viewByteLength = 4 and ?runtime2.0 = exampleRuntime]
    C3_bounds_check_uses_measured_length [where
      args = "constructorCall [ArrayBufferObject 0, NumberValue 2, NumberValue 7]" and
      buffer = 0 and env = exampleEnv and runtime = exampleRuntime and offset = 2 and
      ?runtime1.0 = exampleRuntime and viewByteLength = 7 and ?runtime2.0 = exampleRuntime]
    C3_bounds_check_uses_measured_length [where
      args = "constructorCall [ArrayBufferObject 0, NumberValue 0, OtherObject 0]" and
      buffer = 0 and env = exampleEnv and runtime = exampleRuntime and offset = 0 and
      ?runtime1.0 = exampleRuntime and viewByteLength = 8 and
      ?runtime2.0 = "detach 0 exampleRuntime"]
  by (simp add: example_eval)

text \<open>C3 as stated fails: the coercion of the length argument detaches the buffer, so at
  the time of the check its byte length is 0 and \<open>offset + viewByteLength\<close> exceeds it;
  the construction succeeds all the same.\<close>

theorem C3_counterexample:
  "dataViewConstructor exampleEnv exampleRuntime
     (constructorCall [ArrayBufferObject 0, NumberValue 0, OtherObject 0]) =
     (Inr (DataViewObject \<lparr>dv_buffer = 0, dv_byteOffset = 0, dv_byteLength = 8\<rparr>),
      detach 0 exampleRuntime) \<and>
   bufferSize (detach 0 exampleRuntime 0) = 0 \<and>
   (0 :: nat) + 8 > bufferSize (detach 0 exampleRuntime 0)"
  by (simp add: dataViewConstructor_def example_eval Let_def)

lemma storeChunk_length: "length (storeChunk n v) = n"
  by (simp add: storeChunk_def)

lemma JSDataView_set_Some:
  assumes "JSDataView_set T runtime self n v le = Some runtime'"
  shows "attached (runtime (dv_buffer self)) \<and> n + sizeofT T \<le> dv_byteLength self \<and>
     dv_byteOffset self + n + sizeofT T \<le> bufferSize (runtime (dv_buffer self)) \<and>
     runtime' = runtime (dv_buffer self := (runtime (dv_buffer self))
       \<lparr>dataBlock :=
          take (dv_byteOffset self + n) (dataBlock (runtime (dv_buffer self))) @
          (if le then storeChunk (sizeofT T) v else rev (storeChunk (sizeofT T) v)) @
          drop (dv_byteOffset self + n + sizeofT T) (dataBlock (runtime (dv_buffer self)))\<rparr>)"
  using assms by (auto simp add: JSDataView_set_def Let_def split: if_splits)

text \<open>C7. \<^verbatim>\<open>set<T>\<close> writes all or nothing. When a step fails (the receiver check, the
  offset coercion, the value coercion, the attached check or the bounds check) the call
  raises the error of that step, and the state it returns is the state the argument
  coercions left: the call itself has modified no byte. When every check passes on a
  view that lies within its buffer the call succeeds; and when the call succeeds, every
  check has passed and the state differs from the one the coercions left in exactly the
  \<open>sizeof(T)\<close> bytes at \<open>byteOffset + offset\<close> of the view's buffer, which hold the
  encoded value.\<close>

theorem C7_set_is_atomic:
  "(dyncastThis args = None \<longrightarrow>
      dataViewPrototypeSet env T runtime args =
        Some (Inl (TypeError
          ''DataView.prototype.set<Type>() called on a non DataView object''), runtime)) \<and>
   (dyncastThis args = Some self \<and>
    toIndex env runtime (getArg args 0) = (Inl e, runtime1) \<longrightarrow>
      dataViewPrototypeSet env T runtime args = Some (Inl e, runtime1)) \<and>
   (dyncastThis args = Some self \<and>
    toIndex env runtime (getArg args 0) = (Inr n, runtime1) \<and>
    toNumber_RJS env runtime1 (getArg args 1) = (Inl e, runtime2) \<longrightarrow>
      dataViewPrototypeSet env T runtime args = Some (Inl e, runtime2)) \<and>
   (dyncastThis args = Some self \<and>
    toIndex env runtime (getArg args 0) = (Inr n, runtime1) \<and>
    toNumber_RJS env runtime1 (getArg args 1) = (Inr number, runtime2) \<and>
    \<not> attached (runtime2 (dv_buffer self)) \<longrightarrow>
      dataViewPrototypeSet env T runtime args =
        Some (Inl (TypeError
          ''DataView.prototype.set<Type> called on a detached ArrayBuffer''), runtime2)) \<and>
   (dyncastThis args = Some self \<and>
    toIndex env runtime (getArg args 0) = (Inr n, runtime1) \<and>
    toNumber_RJS env runtime1 (getArg args 1) = (Inr number, runtime2) \<and>
    attached (runtime2 (dv_buffer self)) \<and>
    (n + sizeofT T) mod 2 ^ 64 > dv_byteLength self \<longrightarrow>
      dataViewPrototypeSet env T runtime args =
        Some (Inl (RangeError
          ''DataView.prototype.set<Type>(): Cannot write that many bytes''), runtime2)) \<and>
   (dyncastThis args = Some self \<and>
    toIndex env runtime (getArg args 0) = (Inr n, runtime1) \<and>
    toNumber_RJS env runtime1 (getArg args 1) = (Inr number, runtime2) \<and>
    attached (runtime2 (dv_buffer self)) \<and>
    n + sizeofT T \<le> dv_byteLength self \<and> viewInBuffer runtime2 self \<longrightarrow>
      (\<exists>runtime3. dataViewPrototypeSet env T runtime args =
         Some (Inr UndefinedValue, runtime3))) \<and>
   (\<forall>err runtime'. dataViewPrototypeSet env T runtime args = Some (Inl err, runtime') \<longrightarrow>
      runtime' = runtimeAfterSetCoercions env runtime args) \<and>
   (\<forall>v runtime'. dataViewPrototypeSet env T runtime args = Some (Inr v, runtime') \<longrightarrow>
      v = UndefinedValue \<and>
      (\<exists>view k number after1 after2.
         dyncastThis args = Some view \<and>
         toIndex env runtime (getArg args 0) = (Inr k, after1) \<and>
         toNumber_RJS env after1 (getArg args 1) = (Inr number, after2) \<and>
         after2 = runtimeAfterSetCoercions env runtime args \<and>
         attached (after2 (dv_buffer view)) \<and>
         k + sizeofT T \<le> dv_byteLength view \<and>
         dv_byteOffset view + k + sizeofT T \<le> bufferSize (after2 (dv_buffer view)) \<and>
         runtime' = after2 (dv_buffer view := (after2 (dv_buffer view))
           \<lparr>dataBlock :=
              take (dv_byteOffset view + k) (dataBlock (after2 (dv_buffer view))) @
              (if toBoolean env (getArg args 2)
               then storeChunk (sizeofT T) (toDestType env T number)
               else rev (storeChunk (sizeofT T) (toDestType env T number))) @
              drop (dv_byteOffset view + k + sizeofT T)
                (dataBlock (after2 (dv_buffer view)))\<rparr>) \<and>
         length (storeChunk (sizeofT T) (toDestType env T number)) = sizeofT T))"
proof -
  have p1: "dyncastThis args = None \<longrightarrow>
      dataViewPrototypeSet env T runtime args =
        Some (Inl (TypeError
          ''DataView.prototype.set<Type>() called on a non DataView object''), runtime)"
    by (simp add: dataViewPrototypeSet_def raiseTypeError_def)
  have p2: "dyncastThis args = Some self \<and>
    toIndex env runtime (getArg args 0) = (Inl e, runtime1) \<longrightarrow>
      dataViewPrototypeSet env T runtime args = Some (Inl e, runtime1)"
    by (simp add: dataViewPrototypeSet_def)
  have p3: "dyncastThis args = Some self \<and>
    toIndex env runtime (getArg args 0) = (Inr n, runtime1) \<and>
    toNumber_RJS env runtime1 (getArg args 1) = (Inl e, runtime2) \<longrightarrow>
      dataViewPrototypeSet env T runtime args = Some (Inl e, runtime2)"
    by (simp add: dataViewPrototypeSet_def Let_def)
  have p4: "dyncastThis args = Some self \<and>
    toIndex env runtime (getArg args 0) = (Inr n, runtime1) \<and>
    toNumber_RJS env runtime1 (getArg args 1) = (Inr number, runtime2) \<and>
    \<not> attached (runtime2 (dv_buffer self)) \<longrightarrow>
      dataViewPrototypeSet env T runtime args =
        Some (Inl (TypeError
          ''DataView.prototype.set<Type> called on a detached ArrayBuffer''), runtime2)"
    by (simp add: dataViewPrototypeSet_def Let_def raiseTypeError_def)
  have p5: "dyncastThis args = Some self \<and>
    toIndex env runtime (getArg args 0) = (Inr n, runtime1) \<and>
    toNumber_RJS env runtime1 (getArg args 1) = (Inr number, runtime2) \<and>
    attached (runtime2 (dv_buffer self)) \<and>
    (n + sizeofT T) mod 2 ^ 64 > dv_byteLength self \<longrightarrow>
      dataViewPrototypeSet env T runtime args =
        Some (Inl (RangeError
          ''DataView.prototype.set<Type>(): Cannot write that many bytes''), runtime2)"
    by (simp add: dataViewPrototypeSet_def Let_def raiseRangeError_def)
  have p6: "\<forall>err runtime'. dataViewPrototypeSet env T runtime args = Some (Inl err, runtime') \<longrightarrow>
      runtime' = runtimeAfterSetCoercions env runtime args"
    by (auto simp add: dataViewPrototypeSet_def runtimeAfterSetCoercions_def Let_def
        raiseTypeError_def raiseRangeError_def
        split: option.splits prod.splits sum.splits if_splits)
  have p7: "\<forall>v runtime'. dataViewPrototypeSet env T runtime args = Some (Inr v, runtime') \<longrightarrow>
      v = UndefinedValue \<and>
      (\<exists>view k number after1 after2.
         dyncastThis args = Some view \<and>
         toIndex env runtime (getArg args 0) = (Inr k, after1) \<and>
         toNumber_RJS env after1 (getArg args 1) = (Inr number, after2) \<and>
         after2 = runtimeAfterSetCoercions env runtime args \<and>
         attached (after2 (dv_buffer view)) \<and>
         k + sizeofT T \<le> dv_byteLength view \<and>
         dv_byteOffset view + k + sizeofT T \<le> bufferSize (after2 (dv_buffer view)) \<and>
         runtime' = after2 (dv_buffer view := (after2 (dv_buffer view))
           \<lparr>dataBlock :=
              take (dv_byteOffset view + k) (dataBlock (after2 (dv_buffer view))) @
              (if toBoolean env (getArg args 2)
               then storeChunk (sizeofT T) (toDestType env T number)
               else rev (storeChunk (sizeofT T) (toDestType env T number))) @
              drop (dv_byteOffset view + k + sizeofT T)
                (dataBlock (after2 (dv_buffer view)))\<rparr>) \<and>
         length (storeChunk (sizeofT T) (toDestType env T number)) = sizeofT T)"
  proof (intro allI impI)
    fix v runtime'
    assume a: "dataViewPrototypeSet env T runtime args = Some (Inr v, runtime')"
    then obtain view where view: "dyncastThis args = Some view"
      by (cases "dyncastThis args") (auto simp add: dataViewPrototypeSet_def raiseTypeError_def)
    obtain r r1 where ti: "toIndex env runtime (getArg args 0) = (r, r1)"
      by (cases "toIndex env runtime (getArg args 0)")
    obtain k where k: "r = Inr k"
      using a view ti by (cases r) (auto simp add: dataViewPrototypeSet_def)
    obtain q r2 where tn: "toNumber_RJS env r1 (getArg args 1) = (q, r2)"
      by (cases "toNumber_RJS env r1 (getArg args 1)")
    obtain number where number: "q = Inr number"
      using a view ti k tn by (cases q) (auto simp add: dataViewPrototypeSet_def Let_def)
    have js: "JSDataView_set T r2 view k (toDestType env T number)
        (toBoolean env (getArg args 2)) = Some runtime' \<and> v = UndefinedValue"
      using a view ti k tn number
      by (auto simp add: dataViewPrototypeSet_def Let_def raiseTypeError_def raiseRangeError_def
          split: if_splits option.splits)
    have rc: "r2 = runtimeAfterSetCoercions env runtime args"
      using view ti k tn by (simp add: runtimeAfterSetCoercions_def)
    note f = JSDataView_set_Some[OF js[THEN conjunct1]]
    show "v = UndefinedValue \<and>
      (\<exists>view k number after1 after2.
         dyncastThis args = Some view \<and>
         toIndex env runtime (getArg args 0) = (Inr k, after1) \<and>
         toNumber_RJS env after1 (getArg args 1) = (Inr number, after2) \<and>
         after2 = runtimeAfterSetCoercions env runtime args \<and>
         attached (after2 (dv_buffer view)) \<and>
         k + sizeofT T \<le> dv_byteLength view \<and>
         dv_byteOffset view + k + sizeofT T \<le> bufferSize (after2 (dv_buffer view)) \<and>
         runtime' = after2 (dv_buffer view := (after2 (dv_buffer view))
           \<lparr>dataBlock :=
              take (dv_byteOffset view + k) (dataBlock (after2 (dv_buffer view))) @
              (if toBoolean env (getArg args 2)
               then storeChunk (sizeofT T) (toDestType env T number)
               else rev (storeChunk (sizeofT T) (toDestType env T number))) @
              drop (dv_byteOffset view + k + sizeofT T)
                (dataBlock (after2 (dv_buffer view)))\<rparr>) \<and>
         length (storeChunk (sizeofT T) (toDestType env T number)) = sizeofT T)"
      apply (rule conjI)
       apply (rule js[THEN conjunct2])
      apply (rule exI[of _ view], rule exI[of _ k], rule exI[of _ number],
          rule exI[of _ r1], rule exI[of _ r2])
      using view ti k tn number rc f storeChunk_length by simp
  qed
  have p8: "dyncastThis args = Some self \<and>
    toIndex env runtime (getArg args 0) = (Inr n, runtime1) \<and>
    toNumber_RJS env runtime1 (getArg args 1) = (Inr number, runtime2) \<and>
    attached (runtime2 (dv_buffer self)) \<and>
    n + sizeofT T \<le> dv_byteLength self \<and> viewInBuffer runtime2 self \<longrightarrow>
      (\<exists>runtime3. dataViewPrototypeSet env T runtime args =
         Some (Inr UndefinedValue, runtime3))"
  proof (intro impI, elim conjE)
    assume h: "dyncastThis args = Some self"
      "toIndex env runtime (getArg args 0) = (Inr n, runtime1)"
      "toNumber_RJS env runtime1 (getArg args 1) = (Inr number, runtime2)"
      "attached (runtime2 (dv_buffer self))"
      "n + sizeofT T \<le> dv_byteLength self" "viewInBuffer runtime2 self"
    obtain r3 where r3: "JSDataView_set T runtime2 self n (toDestType env T number)
        (toBoolean env (getArg args 2)) = Some r3"
      using set_in_bounds[OF h(4,6,5)] by blast
    have "n \<le> dv_byteLength self + 1" using h(5) by simp
    then have "(n + sizeofT T) mod 2 ^ 64 = n + sizeofT T"
      using no_wrap[OF h(6)] by blast
    then show "\<exists>runtime3. dataViewPrototypeSet env T runtime args =
         Some (Inr UndefinedValue, runtime3)"
      using h(1,2,3,4,5) r3 by (simp add: dataViewPrototypeSet_def Let_def)
  qed
  show ?thesis using p1 p2 p3 p4 p5 p6 p7 p8 by blast
qed


text \<open>Instances: a write that succeeds and one failure for each step.\<close>

theorem C7_witness:
  "dataViewPrototypeSet exampleEnv Uint16 exampleRuntime
     (methodCall (DataViewObject exampleView) [NumberValue 2, NumberValue 0xABCD]) =
     Some (Inr UndefinedValue,
       exampleRuntime (0 := \<lparr>dataBlock = [1, 2, 3, 4, 0xAB, 0xCD, 7, 8], attached = True\<rparr>)) \<and>
   dataViewPrototypeSet exampleEnv Uint16 exampleRuntime
     (methodCall (ArrayBufferObject 0) [NumberValue 2, NumberValue 0xABCD]) =
     Some (Inl (TypeError
       ''DataView.prototype.set<Type>() called on a non DataView object''), exampleRuntime) \<and>
   dataViewPrototypeSet exampleEnv Uint16 exampleRuntime
     (methodCall (DataViewObject exampleView) [NumberValue (- 1), NumberValue 0xABCD]) =
     Some (Inl (RangeError ''index out of range''), exampleRuntime) \<and>
   dataViewPrototypeSet exampleEnv Uint16 exampleRuntime
     (methodCall (DataViewObject exampleView) [NumberValue 2]) =
     Some (Inl (TypeError ''cannot convert to a number''), exampleRuntime) \<and>
   dataViewPrototypeSet exampleEnv Uint16 exampleRuntime
     (methodCall (DataViewObject exampleView) [NumberValue 2, OtherObject 0]) =
     Some (Inl (TypeError
       ''DataView.prototype.set<Type> called on a detached ArrayBuffer''),
       detach 0 exampleRuntime) \<and>
   dataViewPrototypeSet exampleEnv Uint16 exampleRuntime
     (methodCall (DataViewObject exampleView) [NumberValue 3, NumberValue 0xABCD]) =
     Some (Inl (RangeError
       ''DataView.prototype.set<Type>(): Cannot write that many bytes''), exampleRuntime) \<and>
   runtimeAfterSetCoercions exampleEnv exampleRuntime
     (methodCall (DataViewObject exampleView) [NumberValue 3, NumberValue 0xABCD]) =
     exampleRuntime"
proof -
  have d: "dyncastThis (methodCall (DataViewObject exampleView) as :: int NativeArgs)
     = Some exampleView" for as
    by (simp add: example_eval)
  have nd: "dyncastThis (methodCall (ArrayBufferObject 0) as :: int NativeArgs) = None" for as
    by (simp add: example_eval)
  have ok: "dataViewPrototypeSet exampleEnv Uint16 exampleRuntime
     (methodCall (DataViewObject exampleView) [NumberValue 2, NumberValue 0xABCD]) =
     Some (Inr UndefinedValue,
       exampleRuntime (0 := \<lparr>dataBlock = [1, 2, 3, 4, 0xAB, 0xCD, 7, 8], attached = True\<rparr>))"
    by (simp add: dataViewPrototypeSet_def JSDataView_set_def storeChunk_def example_eval
        Let_def upt_conv_Cons)
  have c1: "dataViewPrototypeSet exampleEnv Uint16 exampleRuntime
     (methodCall (ArrayBufferObject 0) [NumberValue 2, NumberValue 0xABCD]) =
     Some (Inl (TypeError
       ''DataView.prototype.set<Type>() called on a non DataView object''), exampleRuntime)"
    using nd C7_set_is_atomic [where env = exampleEnv and T = Uint16 and
        runtime = exampleRuntime and self = exampleView and
        args = "methodCall (ArrayBufferObject 0) [NumberValue 2, NumberValue 0xABCD]"]
    by blast
  have c2: "dataViewPrototypeSet exampleEnv Uint16 exampleRuntime
     (methodCall (DataViewObject exampleView) [NumberValue (- 1), NumberValue 0xABCD]) =
     Some (Inl (RangeError ''index out of range''), exampleRuntime)"
    using d C7_set_is_atomic [where env = exampleEnv and T = Uint16 and
        runtime = exampleRuntime and self = exampleView and
        e = "RangeError ''index out of range''" and ?runtime1.0 = exampleRuntime and
        args = "methodCall (DataViewObject exampleView) [NumberValue (- 1), NumberValue 0xABCD]"]
    by (simp add: example_eval)
  have c3: "dataViewPrototypeSet exampleEnv Uint16 exampleRuntime
     (methodCall (DataViewObject exampleView) [NumberValue 2]) =
     Some (Inl (TypeError ''cannot convert to a number''), exampleRuntime)"
    using d C7_set_is_atomic [where env = exampleEnv and T = Uint16 and
        runtime = exampleRuntime and self = exampleView and n = 2 and
        e = "TypeError ''cannot convert to a number''" and ?runtime1.0 = exampleRuntime and
        ?runtime2.0 = exampleRuntime and
        args = "methodCall (DataViewObject exampleView) [NumberValue 2]"]
    by (simp add: example_eval)
  have c4: "dataViewPrototypeSet exampleEnv Uint16 exampleRuntime
     (methodCall (DataViewObject exampleView) [NumberValue 2, OtherObject 0]) =
     Some (Inl (TypeError
       ''DataView.prototype.set<Type> called on a detached ArrayBuffer''),
       detach 0 exampleRuntime)"
    using d C7_set_is_atomic [where env = exampleEnv and T = Uint16 and
        runtime = exampleRuntime and self = exampleView and n = 2 and number = 8 and
        ?runtime1.0 = exampleRuntime and ?runtime2.0 = "detach 0 exampleRuntime" and
        args = "methodCall (DataViewObject exampleView) [NumberValue 2, OtherObject 0]"]
    by (simp add: example_eval)
  have c5: "dataViewPrototypeSet exampleEnv Uint16 exampleRuntime
     (methodCall (DataViewObject exampleView) [NumberValue 3, NumberValue 0xABCD]) =
     Some (Inl (RangeError
       ''DataView.prototype.set<Type>(): Cannot write that many bytes''), exampleRuntime)"
    using d C7_set_is_atomic [where env = exampleEnv and T = Uint16 and
        runtime = exampleRuntime and self = exampleView and n = 3 and number = "0xABCD" and
        ?runtime1.0 = exampleRuntime and ?runtime2.0 = exampleRuntime and
        args = "methodCall (DataViewObject exampleView) [NumberValue 3, NumberValue 0xABCD]"]
    by (simp add: example_eval)
  have c6: "runtimeAfterSetCoercions exampleEnv exampleRuntime
     (methodCall (DataViewObject exampleView) [NumberValue 3, NumberValue 0xABCD]) =
     exampleRuntime"
    using c5 C7_set_is_atomic [where env = exampleEnv and T = Uint16 and
        runtime = exampleRuntime and
        args = "methodCall (DataViewObject exampleView) [NumberValue 3, NumberValue 0xABCD]"]
    by metis
  show ?thesis using ok c1 c2 c3 c4 c5 c6 by blast
qed

text \<open>The byte order of a read, on the spec's example: the bytes \<open>[0x01, 0x02]\<close> read as
  a 16-bit value are \<open>0x0201\<close> little-endian and \<open>0x0102\<close> big-endian.\<close>

lemma endianness_example:
  "JSDataView_get Uint16 (\<lambda>a. \<lparr>dataBlock = [0x01, 0x02], attached = True\<rparr>)
     \<lparr>dv_buffer = 0, dv_byteOffset = 0, dv_byteLength = 2\<rparr> 0 True = Some 0x0201 \<and>
   JSDataView_get Uint16 (\<lambda>a. \<lparr>dataBlock = [0x01, 0x02], attached = True\<rparr>)
     \<lparr>dv_buffer = 0, dv_byteOffset = 0, dv_byteLength = 2\<rparr> 0 False = Some 0x0102"
  by (simp add: JSDataView_get_def bufferSize_def Let_def)

end
